theory Spec2Isabelle
  imports Main "HOL-Library.Word" "HOL-Library.Sublist"
begin

section \<open>JavaScript strings\<close>

text \<open>
  The program is the editor extension \<open>src/extension.js\<close>: it asks \<open>git\<close> for the
  history of a line range, a function or a snippet, parses the text \<open>git log\<close> prints
  into records and renders the records as an HTML document.

  A JavaScript string is a finite sequence of 16-bit code units. ASCII literals of the
  source are written through \<open>asc\<close>; the few non-ASCII glyphs of the source (the
  bullet U+2022 and the emoji of the markup) are written as their UTF-16 code units.
\<close>

type_synonym jschar = "16 word"
type_synonym jsstring = "jschar list"

definition asc :: "string \<Rightarrow> jsstring" where
  "asc s = map of_char s"

definition nl :: jsstring where
  "nl = [0x0A]"

text \<open>
  \<open>WhiteSpace\<close> and \<open>LineTerminator\<close> of ECMAScript: what \<open>String.prototype.trim\<close>
  strips and what the regular-expression class \<open>\s\<close> matches.
\<close>

definition isWhiteSpace :: "jschar \<Rightarrow> bool" where
  "isWhiteSpace c \<longleftrightarrow>
     c = 0x09 \<or> c = 0x0A \<or> c = 0x0B \<or> c = 0x0C \<or> c = 0x0D \<or> c = 0x20 \<or> c = 0xA0 \<or>
     c = 0x1680 \<or> (0x2000 \<le> c \<and> c \<le> 0x200A) \<or> c = 0x2028 \<or> c = 0x2029 \<or>
     c = 0x202F \<or> c = 0x205F \<or> c = 0x3000 \<or> c = 0xFEFF"

text \<open>The class \<open>\w\<close>: \<open>[A-Za-z0-9_]\<close>.\<close>

definition isWordChar :: "jschar \<Rightarrow> bool" where
  "isWordChar c \<longleftrightarrow>
     (0x41 \<le> c \<and> c \<le> 0x5A) \<or> (0x61 \<le> c \<and> c \<le> 0x7A) \<or> (0x30 \<le> c \<and> c \<le> 0x39) \<or> c = 0x5F"

definition trim :: "jsstring \<Rightarrow> jsstring" where
  "trim s = rev (dropWhile isWhiteSpace (rev (dropWhile isWhiteSpace s)))"

definition startsWith :: "jsstring \<Rightarrow> jsstring \<Rightarrow> bool" where
  "startsWith s p = prefix p s"

text \<open>
  \<open>s.split(sep)\<close>: the scan of the source string from left to right; \<open>cur\<close> is the
  piece being collected. At a match of a non-empty separator the piece is closed and the
  scan continues after the separator. An empty separator splits into code units.
\<close>

function splitAcc :: "jsstring \<Rightarrow> jsstring \<Rightarrow> jsstring \<Rightarrow> jsstring list" where
  "splitAcc sep cur [] = [cur]"
| "splitAcc sep cur (c # cs) =
     (if sep \<noteq> [] \<and> prefix sep (c # cs)
      then cur # splitAcc sep [] (drop (length sep) (c # cs))
      else splitAcc sep (cur @ [c]) cs)"
  by pat_completeness auto
termination
  by (relation "measure (\<lambda>(sep, cur, s). length s)") auto

definition split :: "jsstring \<Rightarrow> jsstring \<Rightarrow> jsstring list" where
  "split s sep = (if sep = [] then map (\<lambda>c. [c]) s else splitAcc sep [] s)"

text \<open>\<open>xs.join(sep)\<close>.\<close>

fun join :: "jsstring \<Rightarrow> jsstring list \<Rightarrow> jsstring" where
  "join sep [] = []"
| "join sep [x] = x"
| "join sep (x # y # ys) = x @ sep @ join sep (y # ys)"

text \<open>
  \<open>s.replace(pat, rep)\<close> with a string pattern: the first occurrence only. The source
  only passes replacement strings without \<open>$\<close> patterns.
\<close>

fun replace :: "jsstring \<Rightarrow> jsstring \<Rightarrow> jsstring \<Rightarrow> jsstring" where
  "replace [] pat rep = (if pat = [] then rep else [])"
| "replace (c # cs) pat rep =
     (if prefix pat (c # cs) then rep @ drop (length pat) (c # cs)
      else c # replace cs pat rep)"

section \<open>Regular expressions of the source\<close>

text \<open>
  The fragment of JavaScript regular expressions the source uses: literals, the classes
  \<open>\s\<close>, \<open>\w\<close> and \<open>[^c]\<close>, the greedy quantifiers \<open>*\<close> and \<open>+\<close> on a class, \<open>?\<close> on a
  group, alternation, sequence, the capturing group 1 and the anchor \<open>^\<close>. A matcher
  state is the index reached, the rest of the text and what group 1 captured. \<open>ms\<close>
  lists the states after a match in the order a backtracking matcher tries them.
\<close>

datatype cclass = Space | WordCh | NotCh jschar

fun inClass :: "cclass \<Rightarrow> jschar \<Rightarrow> bool" where
  "inClass Space c = isWhiteSpace c"
| "inClass WordCh c = isWordChar c"
| "inClass (NotCh x) c = (c \<noteq> x)"

datatype regex =
    Lit jsstring
  | Cls cclass
  | Star cclass
  | Plus cclass
  | Opt regex
  | Alt "regex list"
  | Seq "regex list"
  | Grp regex
  | Bol

type_synonym mstate = "nat \<times> jsstring \<times> jsstring option"

fun ms :: "regex \<Rightarrow> mstate \<Rightarrow> mstate list" where
  "ms (Lit l) (i, s, c) =
     (if prefix l s then [(i + length l, drop (length l) s, c)] else [])"
| "ms (Cls k) (i, s, c) =
     (case s of [] \<Rightarrow> [] | x # xs \<Rightarrow> if inClass k x then [(Suc i, xs, c)] else [])"
| "ms (Star k) (i, s, c) =
     map (\<lambda>n. (i + n, drop n s, c)) (rev [0 ..< Suc (length (takeWhile (inClass k) s))])"
| "ms (Plus k) (i, s, c) =
     map (\<lambda>n. (i + n, drop n s, c)) (rev [1 ..< Suc (length (takeWhile (inClass k) s))])"
| "ms (Opt r) st = ms r st @ [st]"
| "ms (Alt rs) st = concat (map (\<lambda>r. ms r st) rs)"
| "ms (Seq []) st = [st]"
| "ms (Seq (r # rs)) st = concat (map (ms (Seq rs)) (ms r st))"
| "ms (Grp r) (i, s, c) =
     map (\<lambda>(j, s', c'). (j, s', Some (take (j - i) s))) (ms r (i, s, c))"
| "ms Bol (i, s, c) = (if i = 0 then [(i, s, c)] else [])"

text \<open>
  \<open>text.match(r)\<close> without the \<open>g\<close> flag: the first start index with a match; the
  result is group 1 of the first match there (\<open>Some None\<close>: a match in which group 1
  took no part), \<open>None\<close> when nothing matches (\<open>null\<close>).
\<close>

fun matchFrom :: "regex \<Rightarrow> nat \<Rightarrow> jsstring \<Rightarrow> jsstring option option" where
  "matchFrom r i s =
     (case ms r (i, s, None) of
        (j, s', c) # rest \<Rightarrow> Some c
      | [] \<Rightarrow> (case s of [] \<Rightarrow> None | x # xs \<Rightarrow> matchFrom r (Suc i) xs))"

definition match :: "jsstring \<Rightarrow> regex \<Rightarrow> jsstring option option" where
  "match s r = matchFrom r 0 s"

section \<open>The record parser\<close>

text \<open>
  \<open>parseGitLog\<close> (lines 44 to 97 of the source). A record is the object literal the
  loop starts from, with its six string fields.
\<close>

record commit =
  hash :: jsstring
  author :: jsstring
  date :: jsstring
  message :: jsstring
  branch :: jsstring
  diff :: jsstring

text \<open>The locals of the loop over a block's lines.\<close>

record pstate =
  commit :: commit
  inDiff :: bool
  diffLines :: "jsstring list"

definition emptyCommit :: commit where
  "emptyCommit = \<lparr>hash = [], author = [], date = [], message = [], branch = [], diff = []\<rparr>"

definition initState :: pstate where
  "initState = \<lparr>commit = emptyCommit, inDiff = False, diffLines = []\<rparr>"

text \<open>The pattern \<open>/^\s+\w/\<close> and the bullet glyph U+2022.\<close>

definition indentedWord :: regex where
  "indentedWord = Seq [Bol, Plus Space, Cls WordCh]"

definition bullet :: jsstring where
  "bullet = [0x2022]"

text \<open>One turn of the loop \<open>for (let line of lines)\<close>: the chain of \<open>if\<close>/\<open>else if\<close>.\<close>

definition parseLine :: "pstate \<Rightarrow> jsstring \<Rightarrow> pstate" where
  "parseLine st line =
     (if startsWith line (asc ''commit '') then
        st\<lparr>commit := (commit st)\<lparr>hash := trim (replace line (asc ''commit '') [])\<rparr>\<rparr>
      else if startsWith line (asc ''Author: '') then
        st\<lparr>commit := (commit st)\<lparr>author := trim (replace line (asc ''Author: '') [])\<rparr>\<rparr>
      else if startsWith line (asc ''Date: '') then
        st\<lparr>commit := (commit st)\<lparr>date := trim (replace line (asc ''Date: '') [])\<rparr>\<rparr>
      else if startsWith line (asc ''Branches: '') then
        st\<lparr>commit := (commit st)\<lparr>branch := trim (replace line (asc ''Branches: '') [])\<rparr>\<rparr>
      else if startsWith line (asc ''diff --git'') \<or> startsWith line (asc ''---'')
              \<or> startsWith line (asc ''+++'') then
        st\<lparr>inDiff := True\<rparr>
      else if inDiff st then
        st\<lparr>diffLines := diffLines st @ [line]\<rparr>
      else if trim line \<noteq> [] \<and> \<not> startsWith line (asc '' '') then
        (if message (commit st) \<noteq> [] then
           st\<lparr>commit := (commit st)\<lparr>message := message (commit st) @ asc '' '' @ trim line\<rparr>\<rparr>
         else
           st\<lparr>commit := (commit st)\<lparr>message := trim line\<rparr>\<rparr>)
      else if startsWith (trim line) bullet \<or> match (trim line) indentedWord \<noteq> None then
        st\<lparr>commit := (commit st)\<lparr>message := message (commit st) @ asc '' '' @ trim line\<rparr>\<rparr>
      else st)"

text \<open>
  The body of the loop \<open>for (let block of commitBlocks)\<close>: the marker is put back on a
  block that does not start with it, the lines are folded from the empty record, and the
  diff lines are joined.
\<close>

definition parseBlock :: "jsstring \<Rightarrow> commit" where
  "parseBlock b =
     (let block = (if \<not> startsWith b (asc ''commit '') then asc ''commit '' @ b else b);
          lines = split block nl;
          st = foldl parseLine initState lines
      in (commit st)\<lparr>diff := join nl (diffLines st)\<rparr>)"

text \<open>
  The blocks: the pieces of the output between the occurrences of two newlines and
  \<open>commit \<close>, without the blank ones (\<open>filter(b => b.trim())\<close>); then the loop over them.
\<close>

definition commitBlocks :: "jsstring \<Rightarrow> jsstring list" where
  "commitBlocks output =
     filter (\<lambda>b. trim b \<noteq> []) (split output (asc ''\<newline>\<newline>commit ''))"

definition parseGitLog :: "jsstring \<Rightarrow> commit list" where
  "parseGitLog output = map parseBlock (commitBlocks output)"

section \<open>The external tool and the history queries\<close>

text \<open>\<open>new Error(message)\<close>: the only exception the source throws itself.\<close>

datatype error = Error jsstring

text \<open>
  What the extension does not own: \<open>execSync\<close> of \<open>child_process\<close>, as a function of the
  calls made so far and of the call (working directory and command line) to either the
  message of the error it throws (\<open>Inl\<close>) or the captured output (\<open>Inr\<close>), and
  \<open>path.dirname\<close> and \<open>path.relative\<close>. The state threaded through the queries is the log
  of the calls made.
\<close>

type_synonym call = "jsstring \<times> jsstring"

record env =
  tool :: "call list \<Rightarrow> call \<Rightarrow> jsstring + jsstring"
  dirname :: "jsstring \<Rightarrow> jsstring"
  relative :: "jsstring \<Rightarrow> jsstring \<Rightarrow> jsstring"

text \<open>
  \<open>executeGit\<close> (lines 8 to 16), \<open>getGitRoot\<close> (lines 21 to 32) and \<open>getRelativePath\<close>
  (lines 37 to 39). Each function takes the log of the calls made so far and returns it
  extended.
\<close>

definition execSync :: "env \<Rightarrow> jsstring \<Rightarrow> jsstring \<Rightarrow> call list \<Rightarrow> (jsstring + jsstring) \<times> call list" where
  "execSync e cmd cwd log = (tool e log (cwd, cmd), log @ [(cwd, cmd)])"

definition executeGit :: "env \<Rightarrow> jsstring \<Rightarrow> jsstring \<Rightarrow> call list \<Rightarrow> (error + jsstring) \<times> call list" where
  "executeGit e cwd args log =
     (case execSync e (asc ''git '' @ args) cwd log of
        (Inr output, log') \<Rightarrow> (Inr output, log')
      | (Inl m, log') \<Rightarrow> (Inl (Error (asc ''Git command failed: '' @ m)), log'))"

definition getGitRoot :: "env \<Rightarrow> jsstring \<Rightarrow> call list \<Rightarrow> jsstring option \<times> call list" where
  "getGitRoot e filePath log =
     (case execSync e (asc ''git rev-parse --show-toplevel'') (dirname e filePath) log of
        (Inr output, log') \<Rightarrow> (Some (trim output), log')
      | (Inl m, log') \<Rightarrow> (None, log'))"

definition getRelativePath :: "env \<Rightarrow> jsstring \<Rightarrow> jsstring \<Rightarrow> jsstring" where
  "getRelativePath e filePath gitRoot = relative e gitRoot filePath"

text \<open>
  A number in a template literal: its decimal digits. Line numbers and array lengths are
  natural numbers.
\<close>

definition digitChar :: "nat \<Rightarrow> jschar" where
  "digitChar d = of_nat (48 + d)"

function showNat :: "nat \<Rightarrow> jsstring" where
  "showNat n = (if n < 10 then [digitChar n] else showNat (n div 10) @ [digitChar (n mod 10)])"
  by pat_completeness auto
termination
  by (relation "measure id") auto

declare showNat.simps [simp del]

text \<open>
  The argument strings of the three queries; \<open>prettyFormat\<close> is the part they share.
\<close>

definition prettyFormat :: jsstring where
  \<open>prettyFormat =
     asc ''--pretty=format:"commit %H%nAuthor: %an <%ae>%nDate: %ad%nBranches: %D%n%n%s%n" --date=relative''\<close>

definition lineArgs :: "nat \<Rightarrow> nat \<Rightarrow> jsstring \<Rightarrow> jsstring" where
  \<open>lineArgs startLine endLine relativePath =
     asc ''log '' @ prettyFormat @ asc '' -L '' @ showNat startLine @ asc '','' @ showNat endLine
       @ asc '':"'' @ relativePath @ asc ''"''\<close>



definition notARepository :: error where
  "notARepository = Error (asc ''Not a git repository'')"

text \<open>
  \<open>getLineHistory\<close> (lines 102 to 125), \<open>getFunctionHistory\<close> (lines 130 to 143) and
  \<open>searchCodeHistory\<close> (lines 148 to 161). \<open>!gitRoot\<close> holds for \<open>null\<close> and for the
  empty string. In \<open>getLineHistory\<close> the \<open>catch\<close> retries with the start line alone when the two lines differ and rethrows the
  first error otherwise. \<open>parseGitLog\<close> stands inside the \<open>try\<close> and throws nothing.
\<close>

definition getLineHistory :: "env \<Rightarrow> jsstring \<Rightarrow> nat \<Rightarrow> nat \<Rightarrow> call list \<Rightarrow> (error + commit list) \<times> call list" where
  "getLineHistory e filePath startLine endLine log =
     (case getGitRoot e filePath log of
        (None, log1) \<Rightarrow> (Inl notARepository, log1)
      | (Some gitRoot, log1) \<Rightarrow>
          if gitRoot = [] then (Inl notARepository, log1)
          else
            let relativePath = getRelativePath e filePath gitRoot in
            (case executeGit e gitRoot (lineArgs startLine endLine relativePath) log1 of
               (Inr output, log2) \<Rightarrow> (Inr (parseGitLog output), log2)
             | (Inl err, log2) \<Rightarrow>
                 if startLine \<noteq> endLine then
                   (case executeGit e gitRoot (lineArgs startLine startLine relativePath) log2 of
                      (Inr output, log3) \<Rightarrow> (Inr (parseGitLog output), log3)
                    | (Inl err2, log3) \<Rightarrow> (Inl err2, log3))
                 else (Inl err, log2)))"



section \<open>The symbol-name heuristic\<close>

text \<open>
  The six patterns of \<open>getFunctionNameAtCursor\<close> (lines 538 to 560), in the order of the
  source.
\<close>

definition patterns :: "regex list" where
  "patterns =
     [Seq [Lit (asc ''function''), Plus Space, Grp (Plus WordCh), Star Space, Lit (asc ''('')],
      Seq [Lit (asc ''const''), Plus Space, Grp (Plus WordCh), Star Space, Lit (asc ''=''),
           Star Space, Opt (Seq [Lit (asc ''async''), Star Space]), Lit (asc ''('')],
      Seq [Grp (Plus WordCh), Star Space, Lit (asc '':''), Star Space,
           Opt (Seq [Lit (asc ''async''), Star Space]), Lit (asc ''function'')],
      Seq [Opt (Alt [Lit (asc ''public''), Lit (asc ''private''), Lit (asc ''protected'')]),
           Star Space, Grp (Plus WordCh), Star Space, Lit (asc ''(''), Star (NotCh 0x29),
           Lit (asc '')''), Star Space, Lit (asc ''{'')],
      Seq [Lit (asc ''def''), Plus Space, Grp (Plus WordCh), Star Space, Lit (asc ''('')],
      Seq [Lit (asc ''fn''), Plus Space, Grp (Plus WordCh), Star Space, Lit (asc ''('')]]"

text \<open>
  The loop over the patterns: the first pattern that matches returns its group 1
  (\<open>match[1]\<close>: \<open>None\<close> stands for \<open>undefined\<close> as for \<open>null\<close>, the caller tests
  \<open>!functionName\<close>).
\<close>

fun firstMatch :: "regex list \<Rightarrow> jsstring \<Rightarrow> jsstring option" where
  "firstMatch [] text = None"
| "firstMatch (p # ps) text =
     (case match text p of Some g \<Rightarrow> g | None \<Rightarrow> firstMatch ps text)"

text \<open>
  The document is the text of its lines (\<open>document.lineAt(n).text\<close>), the position its
  line number.
\<close>

definition getFunctionNameAtCursor :: "(nat \<Rightarrow> jsstring) \<Rightarrow> nat \<Rightarrow> jsstring option" where
  "getFunctionNameAtCursor document line = firstMatch patterns (document line)"

section \<open>The renderer\<close>

text \<open>\<open>escapeHTML\<close> (lines 511 to 519): each of the five characters \<open>& < > ' "\<close> becomes its entity.\<close>

definition escapeChar :: "jschar \<Rightarrow> jsstring" where
  "escapeChar c =
     (if c = 0x26 then asc ''&amp;''
      else if c = 0x3C then asc ''&lt;''
      else if c = 0x3E then asc ''&gt;''
      else if c = 0x27 then asc ''&#39;''
      else if c = 0x22 then asc ''&quot;''
      else [c])"

definition escapeHTML :: "jsstring \<Rightarrow> jsstring" where
  "escapeHTML str = concat (map escapeChar str)"

text \<open>
  The template literals of \<open>formatCommitsHTML\<close> (lines 166 to 509), cut at their interpolations. Each piece
  is the text of the source between two interpolations, line by line: \<open>emptyDoc1\<close> to
  \<open>emptyDoc3\<close> the document for no records, \<open>card1\<close> to \<open>card8\<close> the block of one
  record with the two nested literals for the branch label and the diff section, \<open>page1\<close>
  to \<open>page5\<close> the populated document.
\<close>

definition emptyDoc1 :: jsstring where
  \<open>emptyDoc1 = join nl
     [[],
      asc ''            <!DOCTYPE html>'',
      asc ''            <html lang="en">'',
      asc ''            <head>'',
      asc ''                <meta charset="UTF-8">'',
      asc ''                <meta name="viewport" content="width=device-width, initial-scale=1.0">'',
      asc ''                <title>'']\<close>

definition emptyDoc2 :: jsstring where
  \<open>emptyDoc2 = join nl
     [asc ''</title>'',
      asc ''                <style>'',
      asc ''                    * {'',
      asc ''                        margin: 0;'',
      asc ''                        padding: 0;'',
      asc ''                        box-sizing: border-box;'',
      asc ''                    }'',
      asc ''                    body { '',
      asc ''                        font-family: var(--vscode-font-family), -apple-system, BlinkMacSystemFont, 'Segoe UI', sans-serif;'',
      asc ''                        padding: 24px;'',
      asc ''                        color: var(--vscode-foreground);'',
      asc ''                        background-color: var(--vscode-editor-background);'',
      asc ''                        line-height: 1.6;'',
      asc ''                    }'',
      asc ''                    .header {'',
      asc ''                        margin-bottom: 24px;'',
      asc ''                        padding-bottom: 16px;'',
      asc ''                        border-bottom: 1px solid var(--vscode-panel-border);'',
      asc ''                    }'',
      asc ''                    h1 {'',
      asc ''                        font-size: 20px;'',
      asc ''                        font-weight: 600;'',
      asc ''                        color: var(--vscode-foreground);'',
      asc ''                        margin-bottom: 8px;'',
      asc ''                    }'',
      asc ''                    .no-results {'',
      asc ''                        display: flex;'',
      asc ''                        flex-direction: column;'',
      asc ''                        align-items: center;'',
      asc ''                        justify-content: center;'',
      asc ''                        padding: 60px 20px;'',
      asc ''                        text-align: center;'',
      asc ''                    }'',
      asc ''                    .no-results-icon {'',
      asc ''                        font-size: 48px;'',
      asc ''                        margin-bottom: 16px;'',
      asc ''                        opacity: 0.5;'',
      asc ''                    }'',
      asc ''                    .no-results-text {'',
      asc ''                        color: var(--vscode-descriptionForeground);'',
      asc ''                        font-size: 14px;'',
      asc ''                    }'',
      asc ''                </style>'',
      asc ''            </head>'',
      asc ''            <body>'',
      asc ''                <div class="header">'',
      asc ''                    <h1>'']\<close>

definition emptyDoc3 :: jsstring where
  \<open>emptyDoc3 = join nl
     [asc ''</h1>'',
      asc ''                </div>'',
      asc ''                <div class="no-results">'',
      asc ''                    <div class="no-results-icon">'' @ [0xD83D, 0xDCDD] @ asc ''</div>'',
      asc ''                    <p class="no-results-text">No commits found in history.</p>'',
      asc ''                </div>'',
      asc ''            </body>'',
      asc ''            </html>'',
      asc ''        '']\<close>

definition card1 :: jsstring where
  \<open>card1 = join nl
     [[],
      asc ''        <div class="commit-card">'',
      asc ''            <div class="commit-header">'',
      asc ''                <div class="commit-header-left">'',
      asc ''                    <span class="commit-number">#'']\<close>

definition card2 :: jsstring where
  \<open>card2 = join nl
     [asc ''</span>'',
      asc ''                    <code class="commit-hash">'']\<close>

definition card3 :: jsstring where
  \<open>card3 = join nl
     [asc ''</code>'',
      asc ''                    '']\<close>

definition card4 :: jsstring where
  \<open>card4 = join nl
     [[],
      asc ''                </div>'',
      asc ''                <span class="commit-date">'' @ [0xD83D, 0xDCC5] @ asc '' '']\<close>

definition card5 :: jsstring where
  \<open>card5 = join nl
     [asc ''</span>'',
      asc ''            </div>'',
      asc ''            '',
      asc ''            <div class="commit-body">'',
      asc ''                <p class="commit-message">'']\<close>

definition card6 :: jsstring where
  \<open>card6 = join nl
     [asc ''</p>'',
      asc ''                '',
      asc ''                <div class="commit-author">'',
      asc ''                    <svg class="author-icon" width="14" height="14" viewBox="0 0 16 16" fill="currentColor">'',
      asc ''                        <path d="M8 8a3 3 0 1 0 0-6 3 3 0 0 0 0 6zm2-3a2 2 0 1 1-4 0 2 2 0 0 1 4 0zm4 8c0 1-1 1-1 1H3s-1 0-1-1 1-4 6-4 6 3 6 4zm-1-.004c-.001-.246-.154-.986-.832-1.664C11.516 10.68 10.289 10 8 10c-2.29 0-3.516.68-4.168 1.332-.678.678-.83 1.418-.832 1.664h10z"/>'',
      asc ''                    </svg>'',
      asc ''                    <span class="author-name">'']\<close>

definition card7 :: jsstring where
  \<open>card7 = join nl
     [asc ''</span>'',
      asc ''                </div>'',
      asc ''            </div>'',
      asc ''            '',
      asc ''            '']\<close>

definition card8 :: jsstring where
  \<open>card8 = join nl
     [[],
      asc ''        </div>'',
      asc ''    '']\<close>

definition branchOpen :: jsstring where
  \<open>branchOpen = join nl
     [asc ''<span class="commit-branch">'' @ [0xD83C, 0xDF3F] @ asc '' '']\<close>

definition branchClose :: jsstring where
  \<open>branchClose = join nl
     [asc ''</span>'']\<close>

definition diffOpen :: jsstring where
  \<open>diffOpen = join nl
     [[],
      asc ''                <details class="commit-diff">'',
      asc ''                    <summary class="diff-summary">'',
      asc ''                        <svg class="diff-icon" width="14" height="14" viewBox="0 0 16 16" fill="currentColor">'',
      asc ''                            <path d="M8.186 1.113a.5.5 0 0 0-.372 0L1.846 3.5 8 5.961 14.154 3.5 8.186 1.113zM15 4.239l-6.5 2.6v7.922l6.5-2.6V4.24zM7.5 14.762V6.838L1 4.239v7.923l6.5 2.6zM7.443.184a1.5 1.5 0 0 1 1.114 0l7.129 2.852A.5.5 0 0 1 16 3.5v8.662a1 1 0 0 1-.629.928l-7.185 2.874a.5.5 0 0 1-.372 0L.63 13.09a1 1 0 0 1-.63-.928V3.5a.5.5 0 0 1 .314-.464L7.443.184z"/>'',
      asc ''                        </svg>'',
      asc ''                        <span>View changes</span>'',
      asc ''                        <svg class="chevron" width="12" height="12" viewBox="0 0 16 16" fill="currentColor">'',
      asc ''                            <path fill-rule="evenodd" d="M1.646 4.646a.5.5 0 0 1 .708 0L8 10.293l5.646-5.647a.5.5 0 0 1 .708.708l-6 6a.5.5 0 0 1-.708 0l-6-6a.5.5 0 0 1 0-.708z"/>'',
      asc ''                        </svg>'',
      asc ''                    </summary>'',
      asc ''                    <pre class="diff-content"><code>'']\<close>

definition diffClose :: jsstring where
  \<open>diffClose = join nl
     [asc ''</code></pre>'',
      asc ''                </details>'',
      asc ''            '']\<close>

definition page1 :: jsstring where
  \<open>page1 = join nl
     [[],
      asc ''        <!DOCTYPE html>'',
      asc ''        <html lang="en">'',
      asc ''        <head>'',
      asc ''            <meta charset="UTF-8">'',
      asc ''            <meta name="viewport" content="width=device-width, initial-scale=1.0">'',
      asc ''            <title>'']\<close>

definition page2 :: jsstring where
  \<open>page2 = join nl
     [asc ''</title>'',
      asc ''            <style>'',
      asc ''                * {'',
      asc ''                    margin: 0;'',
      asc ''                    padding: 0;'',
      asc ''                    box-sizing: border-box;'',
      asc ''                }'',
      asc ''                '',
      asc ''                body { '',
      asc ''                    font-family: var(--vscode-font-family), -apple-system, BlinkMacSystemFont, 'Segoe UI', sans-serif;'',
      asc ''                    padding: 24px;'',
      asc ''                    color: var(--vscode-foreground);'',
      asc ''                    background-color: var(--vscode-editor-background);'',
      asc ''                    line-height: 1.6;'',
      asc ''                }'',
      asc ''                '',
      asc ''                .header {'',
      asc ''                    margin-bottom: 24px;'',
      asc ''                    padding-bottom: 16px;'',
      asc ''                    border-bottom: 1px solid var(--vscode-panel-border);'',
      asc ''                }'',
      asc ''                '',
      asc ''                h1 {'',
      asc ''                    font-size: 20px;'',
      asc ''                    font-weight: 600;'',
      asc ''                    color: var(--vscode-foreground);'',
      asc ''                    margin-bottom: 8px;'',
      asc ''                }'',
      asc ''                '',
      asc ''                .stats-badge {'',
      asc ''                    display: inline-flex;'',
      asc ''                    align-items: center;'',
      asc ''                    gap: 6px;'',
      asc ''                    background-color: var(--vscode-badge-background);'',
      asc ''                    color: var(--vscode-badge-foreground);'',
      asc ''                    padding: 4px 10px;'',
      asc ''                    border-radius: 12px;'',
      asc ''                    font-size: 12px;'',
      asc ''                    font-weight: 500;'',
      asc ''                }'',
      asc ''                '',
      asc ''                .commit-card {'',
      asc ''                    background-color: var(--vscode-editor-inactiveSelectionBackground);'',
      asc ''                    border: 1px solid var(--vscode-panel-border);'',
      asc ''                    border-left: 3px solid var(--vscode-charts-blue);'',
      asc ''                    border-radius: 6px;'',
      asc ''                    margin-bottom: 16px;'',
      asc ''                    overflow: hidden;'',
      asc ''                    transition: all 0.2s ease;'',
      asc ''                }'',
      asc ''                '',
      asc ''                .commit-card:hover {'',
      asc ''                    border-left-color: var(--vscode-charts-purple);'',
      asc ''                    box-shadow: 0 2px 8px rgba(0, 0, 0, 0.1);'',
      asc ''                }'',
      asc ''                '',
      asc ''                .commit-header {'',
      asc ''                    display: flex;'',
      asc ''                    justify-content: space-between;'',
      asc ''                    align-items: center;'',
      asc ''                    padding: 12px 16px;'',
      asc ''                    background-color: var(--vscode-sideBar-background);'',
      asc ''                    border-bottom: 1px solid var(--vscode-panel-border);'',
      asc ''                }'',
      asc ''                '',
      asc ''                .commit-header-left {'',
      asc ''                    display: flex;'',
      asc ''                    align-items: center;'',
      asc ''                    gap: 10px;'',
      asc ''                    flex-wrap: wrap;'',
      asc ''                }'',
      asc ''                '',
      asc ''                .commit-number {'',
      asc ''                    font-size: 11px;'',
      asc ''                    font-weight: 600;'',
      asc ''                    color: var(--vscode-descriptionForeground);'',
      asc ''                    background-color: var(--vscode-input-background);'',
      asc ''                    padding: 2px 6px;'',
      asc ''                    border-radius: 4px;'',
      asc ''                }'',
      asc ''                '',
      asc ''                .commit-hash {'',
      asc ''                    font-family: 'Consolas', 'Monaco', monospace;'',
      asc ''                    font-size: 12px;'',
      asc ''                    background-color: var(--vscode-textCodeBlock-background);'',
      asc ''                    color: var(--vscode-textLink-foreground);'',
      asc ''                    padding: 3px 8px;'',
      asc ''                    border-radius: 4px;'',
      asc ''                    font-weight: 500;'',
      asc ''                }'',
      asc ''                '',
      asc ''                .commit-branch {'',
      asc ''                    font-size: 11px;'',
      asc ''                    color: var(--vscode-descriptionForeground);'',
      asc ''                    background-color: var(--vscode-input-background);'',
      asc ''                    padding: 2px 8px;'',
      asc ''                    border-radius: 10px;'',
      asc ''                }'',
      asc ''                '',
      asc ''                .commit-date {'',
      asc ''                    font-size: 12px;'',
      asc ''                    color: var(--vscode-descriptionForeground);'',
      asc ''                    display: flex;'',
      asc ''                    align-items: center;'',
      asc ''                    gap: 4px;'',
      asc ''                }'',
      asc ''                '',
      asc ''                .commit-body {'',
      asc ''                    padding: 16px;'',
      asc ''                }'',
      asc ''                '',
      asc ''                .commit-message {'',
      asc ''                    font-size: 14px;'',
      asc ''                    font-weight: 500;'',
      asc ''                    color: var(--vscode-foreground);'',
      asc ''                    margin-bottom: 12px;'',
      asc ''                    line-height: 1.5;'',
      asc ''                }'',
      asc ''                '',
      asc ''                .commit-author {'',
      asc ''                    display: flex;'',
      asc ''                    align-items: center;'',
      asc ''                    gap: 6px;'',
      asc ''                    font-size: 12px;'',
      asc ''                    color: var(--vscode-descriptionForeground);'',
      asc ''                }'',
      asc ''                '',
      asc ''                .author-icon {'',
      asc ''                    opacity: 0.7;'',
      asc ''                }'',
      asc ''                '',
      asc ''                .author-name {'',
      asc ''                    font-weight: 500;'',
      asc ''                }'',
      asc ''                '',
      asc ''                .commit-diff {'',
      asc ''                    margin-top: 12px;'',
      asc ''                    border-top: 1px solid var(--vscode-panel-border);'',
      asc ''                }'',
      asc ''                '',
      asc ''                .diff-summary {'',
      asc ''                    padding: 10px 16px;'',
      asc ''                    cursor: pointer;'',
      asc ''                    display: flex;'',
      asc ''                    align-items: center;'',
      asc ''                    gap: 8px;'',
      asc ''                    font-size: 12px;'',
      asc ''                    color: var(--vscode-textLink-foreground);'',
      asc ''                    background-color: var(--vscode-editor-background);'',
      asc ''                    transition: all 0.2s ease;'',
      asc ''                    user-select: none;'',
      asc ''                }'',
      asc ''                '',
      asc ''                .diff-summary:hover {'',
      asc ''                    background-color: var(--vscode-list-hoverBackground);'',
      asc ''                    color: var(--vscode-textLink-activeForeground);'',
      asc ''                }'',
      asc ''                '',
      asc ''                .diff-icon {'',
      asc ''                    flex-shrink: 0;'',
      asc ''                }'',
      asc ''                '',
      asc ''                .chevron {'',
      asc ''                    margin-left: auto;'',
      asc ''                    transition: transform 0.2s ease;'',
      asc ''                    opacity: 0.7;'',
      asc ''                }'',
      asc ''                '',
      asc ''                details[open] .chevron {'',
      asc ''                    transform: rotate(180deg);'',
      asc ''                }'',
      asc ''                '',
      asc ''                .diff-content {'',
      asc ''                    background-color: var(--vscode-textCodeBlock-background);'',
      asc ''                    padding: 16px;'',
      asc ''                    margin: 0;'',
      asc ''                    overflow-x: auto;'',
      asc ''                    font-family: 'Consolas', 'Monaco', monospace;'',
      asc ''                    font-size: 11px;'',
      asc ''                    line-height: 1.5;'',
      asc ''                    color: var(--vscode-editor-foreground);'',
      asc ''                    border-top: 1px solid var(--vscode-panel-border);'',
      asc ''                }'',
      asc ''                '',
      asc ''                .diff-content code {'',
      asc ''                    font-family: inherit;'',
      asc ''                }'',
      asc ''                '',
      asc ''                /* Scrollbar styling */'',
      asc ''                ::-webkit-scrollbar {'',
      asc ''                    width: 10px;'',
      asc ''                    height: 10px;'',
      asc ''                }'',
      asc ''                '',
      asc ''                ::-webkit-scrollbar-track {'',
      asc ''                    background: var(--vscode-editor-background);'',
      asc ''                }'',
      asc ''                '',
      asc ''                ::-webkit-scrollbar-thumb {'',
      asc ''                    background: var(--vscode-scrollbarSlider-background);'',
      asc ''                    border-radius: 5px;'',
      asc ''                }'',
      asc ''                '',
      asc ''                ::-webkit-scrollbar-thumb:hover {'',
      asc ''                    background: var(--vscode-scrollbarSlider-hoverBackground);'',
      asc ''                }'',
      asc ''                '',
      asc ''                /* Empty state */'',
      asc ''                .empty-state {'',
      asc ''                    text-align: center;'',
      asc ''                    padding: 60px 20px;'',
      asc ''                    color: var(--vscode-descriptionForeground);'',
      asc ''                }'',
      asc ''            </style>'',
      asc ''        </head>'',
      asc ''        <body>'',
      asc ''            <div class="header">'',
      asc ''                <h1>'']\<close>

definition page3 :: jsstring where
  \<open>page3 = join nl
     [asc ''</h1>'',
      asc ''                <div class="stats-badge">'',
      asc ''                    <svg width="14" height="14" viewBox="0 0 16 16" fill="currentColor">'',
      asc ''                        <path d="M8 15A7 7 0 1 1 8 1a7 7 0 0 1 0 14zm0 1A8 8 0 1 0 8 0a8 8 0 0 0 0 16z"/>'',
      asc ''                        <path d="M5.255 5.786a.237.237 0 0 0 .241.247h.825c.138 0 .248-.113.266-.25.09-.656.54-1.134 1.342-1.134.686 0 1.314.343 1.314 1.168 0 .635-.374.927-.965 1.371-.673.489-1.206 1.06-1.168 1.987l.003.217a.25.25 0 0 0 .25.246h.811a.25.25 0 0 0 .25-.25v-.105c0-.718.273-.927 1.01-1.486.609-.463 1.244-.977 1.244-2.056 0-1.511-1.276-2.241-2.673-2.241-1.267 0-2.655.59-2.75 2.286zm1.557 5.763c0 .533.425.927 1.01.927.609 0 1.028-.394 1.028-.927 0-.552-.42-.94-1.029-.94-.584 0-1.009.388-1.009.94z"/>'',
      asc ''                    </svg>'',
      asc ''                    <span>Found '']\<close>

definition page4 :: jsstring where
  \<open>page4 = join nl
     [asc ''</span>'',
      asc ''                </div>'',
      asc ''            </div>'',
      asc ''            '',
      asc ''            <div class="commits-list">'',
      asc ''                '']\<close>

definition page5 :: jsstring where
  \<open>page5 = join nl
     [[],
      asc ''            </div>'',
      asc ''        </body>'',
      asc ''        </html>'',
      asc ''    '']\<close>

text \<open>
  The two conditional interpolations of a block: a string is truthy when it is not empty.
  \<open>commit.branch.split(',')[0]\<close> is the first piece of the split, which always exists.
\<close>

definition branchSpan :: "commit \<Rightarrow> jsstring" where
  "branchSpan c =
     (if branch c \<noteq> [] then
        branchOpen @ escapeHTML (trim (hd (split (branch c) (asc '','')))) @ branchClose
      else [])"

definition diffSection :: "commit \<Rightarrow> jsstring" where
  "diffSection c =
     (if diff c \<noteq> [] then diffOpen @ escapeHTML (diff c) @ diffClose else [])"

text \<open>
  The arrow function of \<open>commits.map\<close>, with \<open>commits.length\<close> passed as \<open>totalCount\<close>;
  \<open>substring(0, 7)\<close> is the first seven code units.
\<close>

definition commitCard :: "nat \<Rightarrow> commit \<Rightarrow> nat \<Rightarrow> jsstring" where
  "commitCard totalCount c index =
     card1 @ showNat (totalCount - index) @ card2 @ take 7 (hash c) @ card3 @ branchSpan c
     @ card4 @ escapeHTML (date c) @ card5 @ escapeHTML (message c) @ card6
     @ escapeHTML (author c) @ card7 @ diffSection c @ card8"

definition formatCommitsHTML :: "commit list \<Rightarrow> jsstring \<Rightarrow> jsstring" where
  "formatCommitsHTML commits title =
     (if commits = [] then
        emptyDoc1 @ escapeHTML title @ emptyDoc2 @ escapeHTML title @ emptyDoc3
      else
        let commitHTML =
              join [] (map (\<lambda>(index, c). commitCard (length commits) c index)
                           (enumerate 0 commits))
        in page1 @ escapeHTML title @ page2 @ escapeHTML title @ page3
           @ showNat (length commits) @ asc '' commit''
           @ (if length commits \<noteq> 1 then asc ''s'' else []) @ page4 @ commitHTML @ page5)"

section \<open>Vocabulary of the statements\<close>

text \<open>
  The two groups of line prefixes the loop tests first: the four header prefixes and the
  three diff-marker prefixes. \<open>blockLines\<close> are the lines the loop of a block runs over
  (the marker restored as the loop's first statement does).
\<close>

definition headerLine :: "jsstring \<Rightarrow> bool" where
  "headerLine l \<longleftrightarrow>
     startsWith l (asc ''commit '') \<or> startsWith l (asc ''Author: '') \<or>
     startsWith l (asc ''Date: '') \<or> startsWith l (asc ''Branches: '')"

definition diffMarker :: "jsstring \<Rightarrow> bool" where
  "diffMarker l \<longleftrightarrow>
     startsWith l (asc ''diff --git'') \<or> startsWith l (asc ''---'') \<or> startsWith l (asc ''+++'')"

definition blockLines :: "jsstring \<Rightarrow> jsstring list" where
  "blockLines b = split (if \<not> startsWith b (asc ''commit '') then asc ''commit '' @ b else b) nl"

text \<open>
  A line that assigns the summary when the loop reads it before diff mode: it has neither
  a header nor a diff-marker prefix and passes one of the two tests of the last two
  branches of the chain.
\<close>

definition summaryLine :: "jsstring \<Rightarrow> bool" where
  "summaryLine l \<longleftrightarrow>
     \<not> headerLine l \<and> \<not> diffMarker l \<and>
     ((trim l \<noteq> [] \<and> \<not> startsWith l (asc '' '')) \<or> startsWith (trim l) bullet
      \<or> match (trim l) indentedWord \<noteq> None)"

text \<open>
  Counting, for the statements about the number of records: the occurrences of a pattern
  in a text (every start index counts), and the lines of a text that begin with the
  record marker.
\<close>

fun occurrences :: "jsstring \<Rightarrow> jsstring \<Rightarrow> nat" where
  "occurrences [] p = 0"
| "occurrences (c # cs) p = (if prefix p (c # cs) then 1 else 0) + occurrences cs p"

definition markerLines :: "jsstring \<Rightarrow> nat" where
  "markerLines s = length (filter (\<lambda>l. startsWith l (asc ''commit '')) (split s nl))"


text \<open>
  Every line but the first that begins with the record marker follows an empty line.
\<close>

fun markersFollowEmptyLine :: "jsstring list \<Rightarrow> bool" where
  "markersFollowEmptyLine (a # b # ls) =
     ((startsWith b (asc ''commit '') \<longrightarrow> a = []) \<and> markersFollowEmptyLine (b # ls))"
| "markersFollowEmptyLine ls = True"

text \<open>\<open>s.includes(p)\<close>: the text \<open>p\<close> occurs in \<open>s\<close>.\<close>

fun contains :: "jsstring \<Rightarrow> jsstring \<Rightarrow> bool" where
  "contains [] p = (p = [])"
| "contains (c # cs) p = (prefix p (c # cs) \<or> contains cs p)"

text \<open>
  An environment for the examples: the tool finds the repository \<open>/repo\<close> from the
  directory \<open>/repo/src\<close> and fails on every other call.
\<close>

definition exampleEnv :: env where
  "exampleEnv =
     \<lparr>tool = (\<lambda>log (cwd, cmd).
         if cmd = asc ''git rev-parse --show-toplevel'' \<and> cwd = asc ''/repo/src''
         then Inr (asc ''/repo\<newline>'') else Inl (asc ''fatal'')),
      dirname = (\<lambda>p. if p = asc ''/repo/src/a.js'' then asc ''/repo/src'' else asc ''/tmp''),
      relative = (\<lambda>root p. asc ''src/a.js'')\<rparr>"


section \<open>A scanner for the opening script tag\<close>

text \<open>
  Used in the proof that no document contains \<open><script>\<close>: the state of the scan is the
  length of the prefix of \<open><script>\<close> read last (8: the tag has been read). A text is
  \<open>gtSafe\<close> when harmless to the scan: it does not begin with \<open>>\<close>
  and no \<open>t\<close> in it is followed by \<open>>\<close>; \<open>gtSafeC\<close> is the same test on the characters
  of a literal.
\<close>

definition scriptOpen :: jsstring where
  "scriptOpen = asc ''<script>''"

definition scanStep :: "nat \<Rightarrow> jschar \<Rightarrow> nat" where
  "scanStep q c =
     (if 8 \<le> q then q else if c = scriptOpen ! q then Suc q else if c = 0x3C then 1 else 0)"

definition scan :: "nat \<Rightarrow> jsstring \<Rightarrow> nat" where
  "scan q s = foldl scanStep q s"

fun noTGt :: "jsstring \<Rightarrow> bool" where
  "noTGt (c # d # r) = ((c \<noteq> 0x74 \<or> d \<noteq> 0x3E) \<and> noTGt (d # r))"
| "noTGt r = True"

definition gtSafe :: "jsstring \<Rightarrow> bool" where
  "gtSafe l \<longleftrightarrow> (case l of [] \<Rightarrow> True | c # r \<Rightarrow> c \<noteq> 0x3E) \<and> noTGt l"

fun noTGtC :: "string \<Rightarrow> bool" where
  "noTGtC (c # d # r) = ((c \<noteq> CHR ''t'' \<or> d \<noteq> CHR ''>'') \<and> noTGtC (d # r))"
| "noTGtC r = True"

definition gtSafeC :: "string \<Rightarrow> bool" where
  "gtSafeC l \<longleftrightarrow> (case l of [] \<Rightarrow> True | c # r \<Rightarrow> c \<noteq> CHR ''>'') \<and> noTGtC l"

section \<open>Properties of the line loop\<close>

lemma parseBlock_lines:
  "parseBlock b = (commit (foldl parseLine initState (blockLines b)))
       \<lparr>diff := join nl (diffLines (foldl parseLine initState (blockLines b)))\<rparr>"
  by (simp add: parseBlock_def blockLines_def Let_def)

lemma diffMarker_not_header: "diffMarker l \<Longrightarrow> \<not> headerLine l"
  by (auto simp: diffMarker_def headerLine_def startsWith_def asc_def prefix_def)

lemma parseLine_marker: "diffMarker l \<Longrightarrow> parseLine st l = st\<lparr>inDiff := True\<rparr>"
  using diffMarker_not_header[of l]
  by (auto simp: parseLine_def diffMarker_def headerLine_def)

lemma parseLine_header:
  "headerLine l \<Longrightarrow> diffLines (parseLine st l) = diffLines st \<and> inDiff (parseLine st l) = inDiff st"
  by (auto simp: parseLine_def headerLine_def)

lemma parseLine_inDiff_other:
  "inDiff st \<Longrightarrow> \<not> headerLine l \<Longrightarrow> \<not> diffMarker l \<Longrightarrow>
     parseLine st l = st\<lparr>diffLines := diffLines st @ [l]\<rparr>"
  by (auto simp: parseLine_def headerLine_def diffMarker_def)

lemma parseLine_before_diff:
  "\<not> inDiff st \<Longrightarrow> \<not> diffMarker l \<Longrightarrow>
     diffLines (parseLine st l) = diffLines st \<and> \<not> inDiff (parseLine st l)"
  by (auto simp: parseLine_def diffMarker_def)

lemma foldl_before_diff:
  "\<not> inDiff st \<Longrightarrow> \<forall>l\<in>set ls. \<not> diffMarker l \<Longrightarrow>
     diffLines (foldl parseLine st ls) = diffLines st \<and> \<not> inDiff (foldl parseLine st ls)"
  by (induction ls arbitrary: st) (auto simp: parseLine_before_diff)

lemma foldl_in_diff:
  "inDiff st \<Longrightarrow>
     diffLines (foldl parseLine st ls) =
       diffLines st @ filter (\<lambda>l. \<not> headerLine l \<and> \<not> diffMarker l) ls
     \<and> inDiff (foldl parseLine st ls)"
proof (induction ls arbitrary: st)
  case Nil
  then show ?case by simp
next
  case (Cons l ls)
  consider (h) "headerLine l" | (m) "diffMarker l" | (o) "\<not> headerLine l" "\<not> diffMarker l"
    by blast
  then show ?case
  proof cases
    case h
    with Cons.prems have "inDiff (parseLine st l)" "diffLines (parseLine st l) = diffLines st"
      by (simp_all add: parseLine_header)
    with Cons.IH[of "parseLine st l"] h show ?thesis by simp
  next
    case m
    with Cons.prems Cons.IH[of "parseLine st l"] show ?thesis
      by (simp add: parseLine_marker)
  next
    case o
    with Cons.prems Cons.IH[of "parseLine st l"] show ?thesis
      by (simp add: parseLine_inDiff_other)
  qed
qed

lemma trim_Nil_iff: "trim l = [] \<longleftrightarrow> (\<forall>c\<in>set l. isWhiteSpace c)"
proof
  assume "trim l = []"
  then have "dropWhile isWhiteSpace (rev (dropWhile isWhiteSpace l)) = []"
    by (simp add: trim_def)
  then have "\<forall>x\<in>set (rev (dropWhile isWhiteSpace l)). isWhiteSpace x"
    by (simp only: dropWhile_eq_Nil_conv)
  then have all: "\<forall>x\<in>set (dropWhile isWhiteSpace l). isWhiteSpace x"
    by (simp only: set_rev)
  have "dropWhile isWhiteSpace l = []"
  proof (rule ccontr)
    assume ne: "dropWhile isWhiteSpace l \<noteq> []"
    then have "\<not> isWhiteSpace (hd (dropWhile isWhiteSpace l))" by (rule hd_dropWhile)
    moreover from ne have "hd (dropWhile isWhiteSpace l) \<in> set (dropWhile isWhiteSpace l)" by simp
    ultimately show False using all by blast
  qed
  then show "\<forall>c\<in>set l. isWhiteSpace c" by (simp only: dropWhile_eq_Nil_conv)
next
  assume "\<forall>c\<in>set l. isWhiteSpace c"
  then have "dropWhile isWhiteSpace l = []" by (simp only: dropWhile_eq_Nil_conv)
  then show "trim l = []" by (simp add: trim_def del: dropWhile_eq_Nil_conv)
qed

lemma trim_Cons:
  assumes "trim l = c # t"
  shows "\<not> isWhiteSpace c \<and> (\<exists>ws rest. l = ws @ c # rest \<and> (\<forall>x\<in>set ws. isWhiteSpace x))"
proof -
  let ?m = "dropWhile isWhiteSpace l"
  have m: "?m \<noteq> []"
  proof
    assume "?m = []"
    then have "trim l = []" by (simp add: trim_def del: dropWhile_eq_Nil_conv)
    with assms show False by simp
  qed
  then obtain d m' where dm: "?m = d # m'" by (cases ?m) auto
  then have nd: "\<not> isWhiteSpace d" using hd_dropWhile[of isWhiteSpace l] by auto
  have "dropWhile isWhiteSpace (rev m' @ [d]) = dropWhile isWhiteSpace (rev m') @ [d]"
    using nd by (simp add: dropWhile_append)
  then have "trim l = d # rev (dropWhile isWhiteSpace (rev m'))"
    by (simp add: trim_def dm)
  with assms have cd: "c = d" by simp
  have "l = takeWhile isWhiteSpace l @ ?m" by simp
  then have "l = takeWhile isWhiteSpace l @ c # m'" using dm cd by simp
  moreover have "\<forall>x\<in>set (takeWhile isWhiteSpace l). isWhiteSpace x"
    by (auto dest: set_takeWhileD)
  ultimately show ?thesis using nd cd by blast
qed

lemma takeWhile_trim: "takeWhile isWhiteSpace (trim l) = []"
proof (cases "trim l")
  case Nil then show ?thesis by simp
next
  case (Cons c t)
  with trim_Cons[OF Cons] show ?thesis by simp
qed

lemma prefixed_first:
  "headerLine l \<or> diffMarker l \<Longrightarrow> \<exists>c t. l = c # t \<and> \<not> isWhiteSpace c \<and> c \<noteq> 0x2022"
  by (auto simp: headerLine_def diffMarker_def startsWith_def asc_def prefix_def isWhiteSpace_def)

lemma inClass_Space: "inClass Space = isWhiteSpace"
  by (rule ext) simp

lemma matchFrom_indentedWord_later: "0 < i \<Longrightarrow> matchFrom indentedWord i s = None"
proof (induction s arbitrary: i)
  case Nil
  then show ?case by (simp add: indentedWord_def)
next
  case (Cons x xs)
  from Cons.prems have "ms indentedWord (i, x # xs, None) = []"
    by (simp add: indentedWord_def)
  with Cons.IH[of "Suc i"] show ?case by simp
qed

lemma match_indentedWord_no_indent:
  "takeWhile isWhiteSpace s = [] \<Longrightarrow> match s indentedWord = None"
proof -
  assume a: "takeWhile isWhiteSpace s = []"
  then have "ms indentedWord (0, s, None) = []"
    by (simp add: indentedWord_def inClass_Space)
  then show ?thesis
    by (cases s) (simp_all add: match_def matchFrom_indentedWord_later del: matchFrom.simps add: matchFrom.simps[of indentedWord 0])
qed

lemma match_trim_indentedWord: "match (trim l) indentedWord = None"
  by (rule match_indentedWord_no_indent) (rule takeWhile_trim)

lemma match_Nil_indentedWord: "match [] indentedWord = None"
  by (rule match_indentedWord_no_indent) simp

lemma parseLine_summary:
  "\<not> headerLine l \<Longrightarrow> \<not> diffMarker l \<Longrightarrow> \<not> inDiff st \<Longrightarrow>
   parseLine st l =
     (if trim l \<noteq> [] \<and> \<not> startsWith l (asc '' '') then
        (if message (commit st) \<noteq> [] then
           st\<lparr>commit := (commit st)\<lparr>message := message (commit st) @ asc '' '' @ trim l\<rparr>\<rparr>
         else st\<lparr>commit := (commit st)\<lparr>message := trim l\<rparr>\<rparr>)
      else if startsWith (trim l) bullet then
        st\<lparr>commit := (commit st)\<lparr>message := message (commit st) @ asc '' '' @ trim l\<rparr>\<rparr>
      else st)"
  by (simp add: parseLine_def headerLine_def diffMarker_def match_trim_indentedWord
        match_Nil_indentedWord)

lemma blank_not_prefixed: "trim l = [] \<Longrightarrow> \<not> headerLine l \<and> \<not> diffMarker l"
  using prefixed_first[of l] by (auto simp: trim_Nil_iff)

lemma indented_not_prefixed:
  "l = c # t \<Longrightarrow> isWhiteSpace c \<Longrightarrow> \<not> headerLine l \<and> \<not> diffMarker l"
  using prefixed_first[of l] by auto

lemma bullet_not_prefixed:
  assumes "startsWith (trim l) bullet"
  shows "\<not> headerLine l \<and> \<not> diffMarker l"
proof -
  from assms obtain t where t: "trim l = 0x2022 # t"
    by (auto simp: startsWith_def bullet_def prefix_def)
  from trim_Cons[OF t] obtain ws rest where
    l: "l = ws @ 0x2022 # rest" "\<forall>x\<in>set ws. isWhiteSpace x" by blast
  show ?thesis
  proof (rule ccontr)
    assume "\<not> ?thesis"
    then obtain c u where cu: "l = c # u" "\<not> isWhiteSpace c" "c \<noteq> 0x2022"
      using prefixed_first[of l] by blast
    with l show False by (cases ws) auto
  qed
qed

lemma boundary_no_overlap:
  assumes "prefix (asc ''\<newline>\<newline>commit '') s"
  shows "occurrences s (asc ''\<newline>\<newline>commit '') =
           Suc (occurrences (drop (length (asc ''\<newline>\<newline>commit '')) s) (asc ''\<newline>\<newline>commit ''))"
proof -
  from assms obtain r where s: "s = asc ''\<newline>\<newline>commit '' @ r"
    by (auto simp: prefix_def)
  show ?thesis
    unfolding s by (simp add: asc_def)
qed

lemma length_splitAcc_boundary:
  "sep = asc ''\<newline>\<newline>commit '' \<Longrightarrow> length (splitAcc sep cur s) = Suc (occurrences s sep)"
proof (induction sep cur s rule: splitAcc.induct)
  case (1 sep cur)
  then show ?case by simp
next
  case (2 sep cur c cs)
  show ?case
  proof (cases "prefix sep (c # cs)")
    case True
    have ne: "sep \<noteq> []" using "2.prems" by (simp add: asc_def)
    from True ne "2.IH"(1) "2.prems"
    have "length (splitAcc sep [] (drop (length sep) (c # cs))) =
            Suc (occurrences (drop (length sep) (c # cs)) sep)" by simp
    moreover from True "2.prems"
    have "occurrences (c # cs) sep = Suc (occurrences (drop (length sep) (c # cs)) sep)"
      using boundary_no_overlap[of "c # cs"] by simp
    ultimately show ?thesis using True ne by (simp del: occurrences.simps)
  next
    case False
    with "2.IH"(2) "2.prems" show ?thesis by simp
  qed
qed

lemma length_split_boundary:
  "length (split s (asc ''\<newline>\<newline>commit '')) = Suc (occurrences s (asc ''\<newline>\<newline>commit ''))"
proof -
  have "asc ''\<newline>\<newline>commit '' \<noteq> []" by (simp add: asc_def)
  then show ?thesis
    by (simp add: split_def length_splitAcc_boundary)
qed

lemma parseLine_author_keep:
  "\<not> startsWith l (asc ''Author: '') \<Longrightarrow> author (commit (parseLine st l)) = author (commit st)"
  by (simp add: parseLine_def)

lemma parseLine_date_keep:
  "\<not> startsWith l (asc ''Date: '') \<Longrightarrow> date (commit (parseLine st l)) = date (commit st)"
  by (simp add: parseLine_def)

lemma parseLine_branch_keep:
  "\<not> startsWith l (asc ''Branches: '') \<Longrightarrow> branch (commit (parseLine st l)) = branch (commit st)"
  by (simp add: parseLine_def)

lemma parseLine_message_keep:
  assumes "headerLine l \<or> diffMarker l \<or> trim l = []"
  shows "message (commit (parseLine st l)) = message (commit st)"
proof -
  consider (h) "headerLine l" | (m) "diffMarker l"
    | (b) "trim l = []" "\<not> headerLine l" "\<not> diffMarker l"
    using assms by blast
  then show ?thesis
  proof cases
    case h
    then show ?thesis by (auto simp: parseLine_def headerLine_def)
  next
    case m
    then show ?thesis by (simp add: parseLine_marker)
  next
    case b
    show ?thesis
    proof (cases "inDiff st")
      case True
      with b show ?thesis by (simp add: parseLine_inDiff_other)
    next
      case False
      with b show ?thesis
        by (simp add: parseLine_summary startsWith_def bullet_def)
    qed
  qed
qed

lemma foldl_author_keep:
  "\<forall>l\<in>set ls. \<not> startsWith l (asc ''Author: '') \<Longrightarrow>
     author (commit (foldl parseLine st ls)) = author (commit st)"
  by (induction ls arbitrary: st) (simp_all add: parseLine_author_keep)

lemma foldl_date_keep:
  "\<forall>l\<in>set ls. \<not> startsWith l (asc ''Date: '') \<Longrightarrow>
     date (commit (foldl parseLine st ls)) = date (commit st)"
  by (induction ls arbitrary: st) (simp_all add: parseLine_date_keep)

lemma foldl_branch_keep:
  "\<forall>l\<in>set ls. \<not> startsWith l (asc ''Branches: '') \<Longrightarrow>
     branch (commit (foldl parseLine st ls)) = branch (commit st)"
  by (induction ls arbitrary: st) (simp_all add: parseLine_branch_keep)

lemma foldl_message_keep:
  "\<forall>l\<in>set ls. headerLine l \<or> diffMarker l \<or> trim l = [] \<Longrightarrow>
     message (commit (foldl parseLine st ls)) = message (commit st)"
  by (induction ls arbitrary: st) (simp_all add: parseLine_message_keep)

lemma join_Nil: "join sep [] = []" by simp


text \<open>
  The fragments of a text: one more than the occurrences of the boundary, the blank ones
  give no record.
\<close>

lemma record_count_by_boundaries:
  "length (parseGitLog s) +
     length (filter (\<lambda>b. trim b = []) (split s (asc ''\<newline>\<newline>commit '')))
   = Suc (occurrences s (asc ''\<newline>\<newline>commit ''))"
proof -
  have "length (parseGitLog s) =
          length (filter (\<lambda>b. trim b \<noteq> []) (split s (asc ''\<newline>\<newline>commit '')))"
    by (simp add: parseGitLog_def commitBlocks_def)
  then show ?thesis
    using sum_length_filter_compl[of "\<lambda>b. trim b \<noteq> []" "split s (asc ''\<newline>\<newline>commit '')"]
    by (simp add: length_split_boundary)
qed


lemma splitAcc_not_Nil: "splitAcc sep cur s \<noteq> []"
  by (induction sep cur s rule: splitAcc.induct) auto

lemma hd_splitAcc_char:
  "hd (splitAcc [x] cur s) = cur @ takeWhile (\<lambda>y. y \<noteq> x) s"
  by (induction s arbitrary: cur) auto

lemma prefix_takeWhile:
  "x \<notin> set m \<Longrightarrow> prefix m (cur @ takeWhile (\<lambda>y. y \<noteq> x) s) = prefix m (cur @ s)"
proof (induction s arbitrary: cur)
  case Nil
  then show ?case by simp
next
  case (Cons c s)
  show ?case
  proof (cases "c = x")
    case True
    have "prefix m (cur @ x # s) \<longleftrightarrow> prefix m cur"
    proof
      assume "prefix m (cur @ x # s)"
      then have "prefix m cur \<or> (\<exists>us. m = cur @ us \<and> prefix us (x # s))"
        by (simp add: prefix_append)
      then show "prefix m cur"
      proof
        assume "prefix m cur" then show ?thesis .
      next
        assume "\<exists>us. m = cur @ us \<and> prefix us (x # s)"
        then obtain us where us: "m = cur @ us" "prefix us (x # s)" by blast
        show ?thesis
        proof (cases us)
          case Nil
          with us show ?thesis by simp
        next
          case (Cons u us')
          with us have "x \<in> set m" by auto
          with Cons.prems show ?thesis by simp
        qed
      qed
    next
      assume "prefix m cur" then show "prefix m (cur @ x # s)" by (simp add: prefix_prefix)
    qed
    with True show ?thesis by simp
  next
    case False
    with Cons.IH[OF Cons.prems, of "cur @ [c]"] show ?thesis by simp
  qed
qed

lemma marker_lines_occurrences:
  assumes "0x0A \<notin> set m"
  shows "length (filter (\<lambda>l. prefix m l) (splitAcc [0x0A] cur s)) =
           (if prefix m (cur @ takeWhile (\<lambda>y. y \<noteq> 0x0A) s) then 1 else 0)
           + occurrences s (0x0A # m)"
proof (induction s arbitrary: cur)
  case Nil
  then show ?case by simp
next
  case (Cons c s)
  show ?case
  proof (cases "c = 0x0A")
    case True
    have "prefix m (takeWhile (\<lambda>y. y \<noteq> 0x0A) s) = prefix m s"
      using prefix_takeWhile[OF assms, of "[]" s] by simp
    with True Cons.IH[of "[]"] show ?thesis by simp
  next
    case False
    with Cons.IH[of "cur @ [c]"] show ?thesis by simp
  qed
qed

lemma marker_no_newline: "0x0A \<notin> set (asc ''commit '')"
  by (simp add: asc_def)

lemma boundary_codes: "asc ''\<newline>\<newline>commit '' = 0x0A # 0x0A # asc ''commit ''"
  by (simp add: asc_def)

lemma markersFollowEmptyLine_Cons:
  "L \<noteq> [] \<Longrightarrow> markersFollowEmptyLine (x # L) =
     ((startsWith (hd L) (asc ''commit '') \<longrightarrow> x = []) \<and> markersFollowEmptyLine L)"
  by (cases L) simp_all

lemma occurrences_after_empty_line:
  assumes "cur = [] \<longleftrightarrow> p = 0x0A"
    and "markersFollowEmptyLine (splitAcc [0x0A] cur s)"
  shows "occurrences s (0x0A # asc ''commit '') =
           occurrences (p # s) (0x0A # 0x0A # asc ''commit '')"
  using assms
proof (induction s arbitrary: cur p)
  case Nil
  then show ?case by simp
next
  case (Cons c s)
  show ?case
  proof (cases "c = 0x0A")
    case True
    let ?L = "splitAcc [0x0A] [] s"
    from True Cons.prems(2) have m: "markersFollowEmptyLine (cur # ?L)" by simp
    have hd: "hd ?L = takeWhile (\<lambda>y. y \<noteq> 0x0A) s"
      by (simp add: hd_splitAcc_char)
    have pm: "prefix (asc ''commit '') (hd ?L) = prefix (asc ''commit '') s"
      using prefix_takeWhile[OF marker_no_newline, of "[]" s] by (simp add: hd)
    from m have 1: "prefix (asc ''commit '') s \<longrightarrow> cur = []" and 2: "markersFollowEmptyLine ?L"
      by (simp_all add: markersFollowEmptyLine_Cons splitAcc_not_Nil startsWith_def pm)
    from Cons.IH[of "[]" "0x0A", OF _ 2]
    have ih: "occurrences s (0x0A # asc ''commit '') =
                occurrences (0x0A # s) (0x0A # 0x0A # asc ''commit '')" by simp
    from 1 Cons.prems(1) have "prefix (asc ''commit '') s \<longrightarrow> p = 0x0A" by simp
    then show ?thesis using True ih by auto
  next
    case False
    from False Cons.prems(2) have "markersFollowEmptyLine (splitAcc [0x0A] (cur @ [c]) s)" by simp
    from Cons.IH[of "cur @ [c]" c, OF _ this] False
    have "occurrences s (0x0A # asc ''commit '') =
            occurrences (c # s) (0x0A # 0x0A # asc ''commit '')" by simp
    with False show ?thesis by simp
  qed
qed

lemma marker_lines_boundaries:
  assumes "startsWith s (asc ''commit '')"
    and "markersFollowEmptyLine (split s nl)"
  shows "markerLines s = Suc (occurrences s (asc ''\<newline>\<newline>commit ''))"
proof -
  from assms(1) obtain s' where s: "s = 0x63 # s'"
    by (auto simp: startsWith_def prefix_def asc_def)
  have sp: "split s nl = splitAcc [0x0A] [0x63] s'"
    by (simp add: split_def nl_def s)
  have a: "markerLines s =
          (if prefix (asc ''commit '') (takeWhile (\<lambda>y. y \<noteq> 0x0A) s) then 1 else 0)
          + occurrences s (0x0A # asc ''commit '')"
    using marker_lines_occurrences[OF marker_no_newline, of "[]" s]
    by (simp add: markerLines_def split_def nl_def startsWith_def)
  have b: "prefix (asc ''commit '') (takeWhile (\<lambda>y. y \<noteq> 0x0A) s)"
    using prefix_takeWhile[OF marker_no_newline, of "[]" s] assms(1)
    by (simp add: startsWith_def)
  have c: "occurrences s (0x0A # asc ''commit '') = occurrences s' (0x0A # asc ''commit '')"
    by (simp add: s)
  have m: "markersFollowEmptyLine (splitAcc [0x0A] [0x63] s')"
    using assms(2) by (simp add: sp)
  have d: "occurrences s' (0x0A # asc ''commit '') =
             occurrences (0x63 # s') (0x0A # 0x0A # asc ''commit '')"
    by (rule occurrences_after_empty_line[of "[0x63]" "0x63" s']) (simp_all add: m)
  from a b c d show ?thesis by (simp add: s boundary_codes)
qed

text \<open>
  When the summary and the diff text stay empty: no line assigns the summary in diff
  mode, and before diff mode only the lines that pass one of the two summary tests do.
\<close>

lemma parseLine_no_summary:
  assumes "\<not> summaryLine l"
  shows "message (commit (parseLine st l)) = message (commit st)"
proof -
  consider (h) "headerLine l" | (m) "diffMarker l"
    | (o) "\<not> headerLine l" "\<not> diffMarker l"
    by blast
  then show ?thesis
  proof cases
    case h
    then show ?thesis by (auto simp: parseLine_def headerLine_def)
  next
    case m
    then show ?thesis by (simp add: parseLine_marker)
  next
    case o
    show ?thesis
    proof (cases "inDiff st")
      case True
      with o show ?thesis by (simp add: parseLine_inDiff_other)
    next
      case False
      with o assms show ?thesis
        by (simp add: parseLine_summary summaryLine_def)
    qed
  qed
qed

lemma parseLine_inDiff_message:
  assumes "inDiff st"
  shows "message (commit (parseLine st l)) = message (commit st) \<and> inDiff (parseLine st l)"
proof -
  consider (h) "headerLine l" | (m) "diffMarker l"
    | (o) "\<not> headerLine l" "\<not> diffMarker l"
    by blast
  then show ?thesis
  proof cases
    case h
    with assms show ?thesis by (auto simp: parseLine_def headerLine_def)
  next
    case m
    then show ?thesis by (simp add: parseLine_marker)
  next
    case o
    with assms show ?thesis by (simp add: parseLine_inDiff_other)
  qed
qed

lemma foldl_no_summary:
  "\<forall>l\<in>set ls. \<not> summaryLine l \<Longrightarrow>
     message (commit (foldl parseLine st ls)) = message (commit st)"
  by (induction ls arbitrary: st) (simp_all add: parseLine_no_summary)

lemma foldl_inDiff_message:
  "inDiff st \<Longrightarrow> message (commit (foldl parseLine st ls)) = message (commit st)"
  by (induction ls arbitrary: st) (simp_all add: parseLine_inDiff_message)

lemma message_never_assigned:
  assumes "\<forall>l\<in>set (takeWhile (\<lambda>l. \<not> diffMarker l) ls). \<not> summaryLine l"
  shows "message (commit (foldl parseLine initState ls)) = []"
proof -
  let ?pre = "takeWhile (\<lambda>l. \<not> diffMarker l) ls"
  let ?post = "dropWhile (\<lambda>l. \<not> diffMarker l) ls"
  let ?s1 = "foldl parseLine initState ?pre"
  have m1: "message (commit ?s1) = []"
    using foldl_no_summary[OF assms, of initState] by (simp add: initState_def emptyCommit_def)
  have "message (commit (foldl parseLine ?s1 ?post)) = []"
  proof (cases ?post)
    case Nil
    with m1 show ?thesis by (simp del: dropWhile_eq_Nil_conv)
  next
    case (Cons m post')
    then have "diffMarker m" using hd_dropWhile[of "\<lambda>l. \<not> diffMarker l" ls] by auto
    then have "inDiff (parseLine ?s1 m)" "message (commit (parseLine ?s1 m)) = []"
      using m1 by (simp_all add: parseLine_marker)
    then show ?thesis using foldl_inDiff_message[of "parseLine ?s1 m" post'] Cons by simp
  qed
  moreover have "foldl parseLine initState ls = foldl parseLine ?s1 ?post"
    by (simp flip: foldl_append)
  ultimately show ?thesis by simp
qed

lemma diff_never_assigned:
  assumes "\<forall>l\<in>set (dropWhile (\<lambda>l. \<not> diffMarker l) ls). headerLine l \<or> diffMarker l"
  shows "diffLines (foldl parseLine initState ls) = []"
proof -
  let ?pre = "takeWhile (\<lambda>l. \<not> diffMarker l) ls"
  let ?post = "dropWhile (\<lambda>l. \<not> diffMarker l) ls"
  let ?s1 = "foldl parseLine initState ?pre"
  have "\<forall>l\<in>set ?pre. \<not> diffMarker l" by (auto dest: set_takeWhileD)
  then have s1: "diffLines ?s1 = []" "\<not> inDiff ?s1"
    using foldl_before_diff[of initState ?pre] by (simp_all add: initState_def)
  have "diffLines (foldl parseLine ?s1 ?post) = []"
  proof (cases ?post)
    case Nil
    with s1 show ?thesis by (simp del: dropWhile_eq_Nil_conv)
  next
    case (Cons m post')
    then have dm: "diffMarker m" using hd_dropWhile[of "\<lambda>l. \<not> diffMarker l" ls] by auto
    then have s2: "inDiff (parseLine ?s1 m)" "diffLines (parseLine ?s1 m) = []"
      using s1 by (simp_all add: parseLine_marker)
    from assms Cons have "\<forall>l\<in>set post'. headerLine l \<or> diffMarker l" by simp
    then have "filter (\<lambda>l. \<not> headerLine l \<and> \<not> diffMarker l) post' = []"
      by (auto simp: filter_empty_conv)
    with foldl_in_diff[OF s2(1), of post'] s2(2) Cons show ?thesis by simp
  qed
  moreover have "foldl parseLine initState ls = foldl parseLine ?s1 ?post"
    by (simp flip: foldl_append)
  ultimately show ?thesis by simp
qed

lemma hd_blockLines: "startsWith (hd (blockLines b)) (asc ''commit '')"
proof -
  let ?blk = "if \<not> startsWith b (asc ''commit '') then asc ''commit '' @ b else b"
  have p: "prefix (asc ''commit '') ?blk" by (simp add: startsWith_def)
  have "hd (blockLines b) = takeWhile (\<lambda>y. y \<noteq> 0x0A) ?blk"
    using hd_splitAcc_char[of "0x0A" "[]" ?blk]
    by (simp add: blockLines_def split_def nl_def)
  then show ?thesis
    using prefix_takeWhile[OF marker_no_newline, of "[]" ?blk] p
    by (simp add: startsWith_def)
qed

lemma blockLines_not_Nil: "blockLines b \<noteq> []"
  by (simp add: blockLines_def split_def nl_def splitAcc_not_Nil)

section \<open>Properties of the history queries\<close>


lemma getGitRoot_succeeds:
  "tool e log (dirname e f, asc ''git rev-parse --show-toplevel'') = Inr out \<Longrightarrow>
     getGitRoot e f log = (Some (trim out), log @ [(dirname e f, asc ''git rev-parse --show-toplevel'')])"
  by (simp add: getGitRoot_def execSync_def)

lemma executeGit_result:
  "executeGit e cwd args log =
     (case tool e log (cwd, asc ''git '' @ args) of
        Inr output \<Rightarrow> Inr output
      | Inl m \<Rightarrow> Inl (Error (asc ''Git command failed: '' @ m)),
      log @ [(cwd, asc ''git '' @ args)])"
  by (simp add: executeGit_def execSync_def split: sum.splits)

text \<open>The command line of a range query, as the template literal of the source spells it.\<close>

lemma lineArgs_text:
  \<open>asc ''git '' @ lineArgs startLine endLine relativePath =
     asc ''git log --pretty=format:"commit %H%nAuthor: %an <%ae>%nDate: %ad%nBranches: %D%n%n%s%n" --date=relative -L ''
     @ showNat startLine @ asc '','' @ showNat endLine @ asc '':"'' @ relativePath @ asc ''"''\<close>
  by (simp add: lineArgs_def prettyFormat_def asc_def)

lemma getLineHistory_fallback:
  fixes e :: env and f out :: jsstring and a b :: nat
  defines "c0 \<equiv> (dirname e f, asc ''git rev-parse --show-toplevel'')"
  defines "c1 \<equiv> (trim out, asc ''git '' @ lineArgs a b (relative e (trim out) f))"
  defines "c2 \<equiv> (trim out, asc ''git '' @ lineArgs a a (relative e (trim out) f))"
  assumes root: "tool e log c0 = Inr out" "trim out \<noteq> []"
    and fail: "tool e (log @ [c0]) c1 = Inl m"
  shows "getLineHistory e f a b log =
           (if a \<noteq> b then
              (case tool e (log @ [c0, c1]) c2 of
                 Inr output \<Rightarrow> Inr (parseGitLog output)
               | Inl m2 \<Rightarrow> Inl (Error (asc ''Git command failed: '' @ m2)),
               log @ [c0, c1, c2])
            else (Inl (Error (asc ''Git command failed: '' @ m)), log @ [c0, c1]))"
  using getGitRoot_succeeds[of e log f out] root fail
  by (simp add: getLineHistory_def executeGit_result getRelativePath_def c0_def c1_def c2_def
        Let_def split: sum.splits)

section \<open>Properties of the renderer\<close>

lemma join_empty_concat: "join [] xs = concat xs"
  by (induction "[] :: jsstring" xs rule: join.induct) simp_all

lemma map_enumerate_nth:
  "map (\<lambda>(index, c). f c index) (enumerate 0 cs) = map (\<lambda>j. f (cs ! j) j) [0..<length cs]"
  by (rule nth_equalityI) (simp_all add: enumerate_eq_zip)

lemma upt_split_at: "i < n \<Longrightarrow> [0..<n] = [0..<i] @ i # [Suc i..<n]"
  by (metis upt_add_eq_append upt_conv_Cons le0 le_add_diff_inverse less_imp_le_nat plus_nat.add_0)

lemma hd_splitAcc_comma:
  "hd (splitAcc [0x2C] cur s) = cur @ takeWhile (\<lambda>x. x \<noteq> 0x2C) s"
  by (induction s arbitrary: cur) auto

lemma first_token: "hd (split s (asc '','')) = takeWhile (\<lambda>x. x \<noteq> 0x2C) s"
proof -
  have "asc '','' = [0x2C]" by (simp add: asc_def)
  then show ?thesis by (simp add: split_def hd_splitAcc_comma)
qed

lemma commitHTML_blocks:
  assumes "i < length cs"
  shows "join [] (map (\<lambda>(index, c). commitCard (length cs) c index) (enumerate 0 cs)) =
           concat (map (\<lambda>j. commitCard (length cs) (cs ! j) j) [0..<i])
           @ commitCard (length cs) (cs ! i) i
           @ concat (map (\<lambda>j. commitCard (length cs) (cs ! j) j) [Suc i..<length cs])"
  by (simp add: join_empty_concat map_enumerate_nth upt_split_at[OF assms])

lemma formatCommitsHTML_block:
  assumes "i < length cs"
  shows "formatCommitsHTML cs title =
           (page1 @ escapeHTML title @ page2 @ escapeHTML title @ page3
            @ showNat (length cs) @ asc '' commit''
            @ (if length cs \<noteq> 1 then asc ''s'' else []) @ page4)
           @ concat (map (\<lambda>j. commitCard (length cs) (cs ! j) j) [0..<i])
           @ (card1 @ showNat (length cs - i) @ card2 @ take 7 (hash (cs ! i)) @ card3
              @ (if branch (cs ! i) = [] then []
                 else branchOpen
                      @ escapeHTML (trim (takeWhile (\<lambda>x. x \<noteq> 0x2C) (branch (cs ! i))))
                      @ branchClose)
              @ card4 @ escapeHTML (date (cs ! i)) @ card5 @ escapeHTML (message (cs ! i))
              @ card6 @ escapeHTML (author (cs ! i)) @ card7
              @ (if diff (cs ! i) = [] then []
                 else diffOpen @ escapeHTML (diff (cs ! i)) @ diffClose)
              @ card8)
           @ concat (map (\<lambda>j. commitCard (length cs) (cs ! j) j) [Suc i..<length cs])
           @ page5"
proof -
  from assms have ne: "cs \<noteq> []" by auto
  have card: "commitCard (length cs) (cs ! i) i =
      card1 @ showNat (length cs - i) @ card2 @ take 7 (hash (cs ! i)) @ card3
              @ (if branch (cs ! i) = [] then []
                 else branchOpen
                      @ escapeHTML (trim (takeWhile (\<lambda>x. x \<noteq> 0x2C) (branch (cs ! i))))
                      @ branchClose)
              @ card4 @ escapeHTML (date (cs ! i)) @ card5 @ escapeHTML (message (cs ! i))
              @ card6 @ escapeHTML (author (cs ! i)) @ card7
              @ (if diff (cs ! i) = [] then []
                 else diffOpen @ escapeHTML (diff (cs ! i)) @ diffClose)
              @ card8"
    by (simp add: commitCard_def branchSpan_def diffSection_def first_token)
  show ?thesis
    unfolding formatCommitsHTML_def Let_def commitHTML_blocks[OF assms] card
    using ne by simp
qed

lemma card2_end:
  \<open>card2 = (asc ''</span>'' @ nl @ asc ''                    '') @ asc ''<code class="commit-hash">''\<close>
  by (simp add: card2_def asc_def)

lemma card3_start: \<open>card3 = asc ''</code>'' @ (nl @ asc ''                    '')\<close>
  by (simp add: card3_def asc_def)

lemma hash_verbatim:
  assumes "i < length cs"
  shows \<open>\<exists>pre post. formatCommitsHTML cs title =
           pre @ asc ''<code class="commit-hash">'' @ take 7 (hash (cs ! i)) @ asc ''</code>'' @ post\<close>
proof -
  define a where "a =
      (page1 @ escapeHTML title @ page2 @ escapeHTML title @ page3
            @ showNat (length cs) @ asc '' commit''
            @ (if length cs \<noteq> 1 then asc ''s'' else []) @ page4)
           @ concat (map (\<lambda>j. commitCard (length cs) (cs ! j) j) [0..<i])
           @ card1 @ showNat (length cs - i)"
  define d where "d =
       (if branch (cs ! i) = [] then []
                 else branchOpen
                      @ escapeHTML (trim (takeWhile (\<lambda>x. x \<noteq> 0x2C) (branch (cs ! i))))
                      @ branchClose)
              @ card4 @ escapeHTML (date (cs ! i)) @ card5 @ escapeHTML (message (cs ! i))
              @ card6 @ escapeHTML (author (cs ! i)) @ card7
              @ (if diff (cs ! i) = [] then []
                 else diffOpen @ escapeHTML (diff (cs ! i)) @ diffClose)
              @ card8
           @ concat (map (\<lambda>j. commitCard (length cs) (cs ! j) j) [Suc i..<length cs])
           @ page5"
  have "formatCommitsHTML cs title = a @ card2 @ take 7 (hash (cs ! i)) @ card3 @ d"
    unfolding a_def d_def formatCommitsHTML_block[OF assms, of title] by simp
  then have \<open>formatCommitsHTML cs title =
      (a @ asc ''</span>'' @ nl @ asc ''                    '')
      @ asc ''<code class="commit-hash">'' @ take 7 (hash (cs ! i)) @ asc ''</code>''
      @ ((nl @ asc ''                    '') @ d)\<close>
    by (simp add: card2_end card3_start)
  then show ?thesis by (intro exI)
qed

lemma unat_of_char: "unat (of_char c :: jschar) = of_char c"
proof -
  have "(of_char c :: jschar) = of_nat (of_char c)" by (simp add: of_nat_of_char)
  moreover have "(of_char c :: nat) < 2 ^ 16"
    by (rule less_trans[OF nat_of_char_less_256]) simp
  ultimately show ?thesis by (simp add: unat_of_nat)
qed

lemma of_char_word_eq_iff: "(of_char c :: jschar) = of_char d \<longleftrightarrow> c = d"
proof
  assume "(of_char c :: jschar) = of_char d"
  then have "unat (of_char c :: jschar) = unat (of_char d :: jschar)" by simp
  then show "c = d" by (simp add: unat_of_char)
qed simp

lemma of_char_t: "(of_char c :: jschar) = 0x74 \<longleftrightarrow> c = CHR ''t''"
  using of_char_word_eq_iff[of c "CHR ''t''"] by simp

lemma of_char_gt: "(of_char c :: jschar) = 0x3E \<longleftrightarrow> c = CHR ''>''"
  using of_char_word_eq_iff[of c "CHR ''>''"] by simp

lemma noTGt_asc: "noTGt (asc s) = noTGtC s"
  by (induction s rule: noTGtC.induct) (simp_all add: asc_def of_char_t of_char_gt)

lemma gtSafe_asc: "gtSafe (asc s) = gtSafeC s"
proof -
  have "(case asc s of [] \<Rightarrow> True | c # r \<Rightarrow> c \<noteq> 0x3E)
          = (case s of [] \<Rightarrow> True | c # r \<Rightarrow> c \<noteq> CHR ''>'')"
    by (cases s) (simp_all add: asc_def of_char_gt)
  then show ?thesis
    by (simp add: gtSafe_def gtSafeC_def noTGt_asc)
qed

lemma noTGt_tl: "noTGt (c # r) \<Longrightarrow> noTGt r"
  by (cases r) simp_all

lemma noTGt_append:
  "noTGt a \<Longrightarrow> noTGt b \<Longrightarrow> (case b of [] \<Rightarrow> True | c # r \<Rightarrow> c \<noteq> 0x3E) \<Longrightarrow> noTGt (a @ b)"
proof (induction a)
  case Nil
  then show ?case by simp
next
  case (Cons c a)
  show ?case
  proof (cases "a = []")
    case True
    with Cons.prems show ?thesis by (cases b) simp_all
  next
    case False
    then obtain d r where a: "a = d # r" by (cases a) auto
    with Cons.prems have "noTGt a" by simp
    with Cons.IH Cons.prems have "noTGt (a @ b)" by simp
    with Cons.prems a show ?thesis by simp
  qed
qed

lemma gtSafe_append [simp]: "gtSafe a \<Longrightarrow> gtSafe b \<Longrightarrow> gtSafe (a @ b)"
  using noTGt_append[of a b] by (cases a) (auto simp: gtSafe_def)

lemma gtSafe_Nil [simp]: "gtSafe []"
  by (simp add: gtSafe_def)

lemma gtSafe_nl [simp]: "gtSafe nl"
  by (simp add: gtSafe_def nl_def)

lemma gtSafe_join: "list_all gtSafe ls \<Longrightarrow> gtSafe (join nl ls)"
  by (induction nl ls rule: join.induct) simp_all

lemma state_cases:
  "q < 8 \<Longrightarrow> q = 0 \<or> q = 1 \<or> q = 2 \<or> q = 3 \<or> q = 4 \<or> q = 5 \<or> q = 6 \<or> q = (7::nat)"
  by arith

lemma scriptOpen_codes: "scriptOpen = [0x3C, 0x73, 0x63, 0x72, 0x69, 0x70, 0x74, 0x3E]"
  by (simp add: scriptOpen_def asc_def)

lemma scanStep_lt: "q < 8 \<Longrightarrow> scanStep q 0x3C = 1"
  by (drule state_cases) (auto simp: scanStep_def scriptOpen_codes)

lemma scanStep_stay: "8 \<le> q \<Longrightarrow> scanStep q c = q"
  by (simp add: scanStep_def)

lemma scan_stay: "8 \<le> q \<Longrightarrow> scan q s = q"
  by (induction s arbitrary: q) (simp_all add: scan_def scanStep_stay)

lemma scan_append: "scan q (a @ b) = scan (scan q a) b"
  by (simp add: scan_def)

lemma scan_Cons: "scan q (c # s) = scan (scanStep q c) s"
  by (simp add: scan_def)

lemma scan_Nil: "scan q [] = q"
  by (simp add: scan_def)

lemma scan_scriptOpen: "8 \<le> scan q scriptOpen"
proof (cases "q < 8")
  case True
  have "scan 1 [0x73, 0x63, 0x72, 0x69, 0x70, 0x74, 0x3E] = 8"
    by (simp add: scan_Cons scan_Nil scanStep_def scriptOpen_codes)
  with True show ?thesis
    by (simp add: scriptOpen_codes scan_Cons scanStep_lt[unfolded scriptOpen_codes])
next
  case False
  then show ?thesis by (simp add: scan_stay)
qed

lemma scan_mono_accept: "8 \<le> q \<Longrightarrow> 8 \<le> scan q s"
  by (simp add: scan_stay)

lemma contains_scriptOpen_scan: "contains s scriptOpen \<Longrightarrow> 8 \<le> scan q s"
proof (induction s arbitrary: q)
  case Nil
  then show ?case by (simp add: scriptOpen_codes)
next
  case (Cons c cs)
  from Cons.prems have "prefix scriptOpen (c # cs) \<or> contains cs scriptOpen" by simp
  then show ?case
  proof
    assume "prefix scriptOpen (c # cs)"
    then obtain r where r: "c # cs = scriptOpen @ r" by (auto simp: prefix_def)
    have "8 \<le> scan (scan q scriptOpen) r"
      by (rule scan_mono_accept) (rule scan_scriptOpen)
    then show ?thesis by (simp add: r scan_append)
  next
    assume "contains cs scriptOpen"
    from Cons.IH[OF this, of "scanStep q c"] show ?thesis by (simp add: scan_Cons)
  qed
qed

lemma contains_prefix: "contains s (p @ r) \<Longrightarrow> contains s p"
  by (induction s) (auto simp: prefix_def)

lemma scanStep_safe:
  assumes "q < 8" "q = 7 \<longrightarrow> c \<noteq> 0x3E"
  shows "scanStep q c < 8 \<and> (scanStep q c = 7 \<longrightarrow> c = 0x74)"
  using state_cases[OF assms(1)] assms(2)
  by (auto simp: scanStep_def scriptOpen_codes)

lemma scan_noTGt:
  "q < 8 \<Longrightarrow> (q = 7 \<longrightarrow> (case l of [] \<Rightarrow> True | c # r \<Rightarrow> c \<noteq> 0x3E)) \<Longrightarrow> noTGt l \<Longrightarrow> scan q l < 8"
proof (induction l arbitrary: q)
  case Nil
  then show ?case by (simp add: scan_Nil)
next
  case (Cons c l)
  from Cons.prems have s: "scanStep q c < 8" "scanStep q c = 7 \<longrightarrow> c = 0x74"
    using scanStep_safe[of q c] by auto
  have "scanStep q c = 7 \<longrightarrow> (case l of [] \<Rightarrow> True | d # r \<Rightarrow> d \<noteq> 0x3E)"
    using s(2) Cons.prems(3) by (cases l) auto
  moreover have "noTGt l" using Cons.prems(3) by (rule noTGt_tl)
  ultimately show ?case using Cons.IH[of "scanStep q c"] s(1) by (simp add: scan_Cons)
qed

lemma scan_gtSafe: "q < 8 \<Longrightarrow> gtSafe l \<Longrightarrow> scan q l < 8"
  by (rule scan_noTGt) (simp_all add: gtSafe_def)

lemma scanStep_bound: "q < 8 \<Longrightarrow> scanStep q c \<le> Suc q"
  by (simp add: scanStep_def)

lemma scan_bound: "q + length s < 8 \<Longrightarrow> scan q s \<le> q + length s"
proof (induction s arbitrary: q)
  case Nil
  then show ?case by (simp add: scan_Nil)
next
  case (Cons c s)
  have "scanStep q c \<le> Suc q" using Cons.prems by (simp add: scanStep_bound)
  moreover from this Cons.prems have "scan (scanStep q c) s \<le> scanStep q c + length s"
    by (intro Cons.IH) simp
  ultimately show ?case by (simp add: scan_Cons)
qed

lemma gtSafe_no_gt: "0x3E \<notin> set l \<Longrightarrow> gtSafe l"
proof -
  assume a: "0x3E \<notin> set l"
  then have "noTGt l" by (induction l rule: noTGt.induct) auto
  with a show ?thesis by (cases l) (auto simp: gtSafe_def)
qed

lemma escapeChar_no_gt: "0x3E \<notin> set (escapeChar c)"
  by (simp add: escapeChar_def asc_def)

lemma gtSafe_escapeHTML [simp]: "gtSafe (escapeHTML s)"
  by (rule gtSafe_no_gt) (simp add: escapeHTML_def escapeChar_no_gt)

lemma digitChar_not_gt: "d < 10 \<Longrightarrow> digitChar d \<noteq> 0x3E"
proof -
  assume "d < 10"
  then have "d = 0 \<or> d = 1 \<or> d = 2 \<or> d = 3 \<or> d = 4 \<or> d = 5 \<or> d = 6 \<or> d = 7 \<or> d = 8 \<or> d = 9"
    by arith
  then show ?thesis by (auto simp: digitChar_def)
qed

lemma showNat_no_gt: "0x3E \<notin> set (showNat n)"
proof (induction n rule: showNat.induct)
  case (1 n)
  show ?case
  proof (cases "n < 10")
    case True
    then show ?thesis by (subst showNat.simps) (simp add: digitChar_not_gt)
  next
    case False
    with 1 have "0x3E \<notin> set (showNat (n div 10))" by simp
    moreover have "digitChar (n mod 10) \<noteq> 0x3E" by (rule digitChar_not_gt) simp
    ultimately show ?thesis using False by (subst showNat.simps) auto
  qed
qed

lemma gtSafe_showNat [simp]: "gtSafe (showNat n)"
  by (rule gtSafe_no_gt) (rule showNat_no_gt)

lemma gtSafe_Cons: "c \<noteq> 0x3E \<Longrightarrow> c \<noteq> 0x74 \<Longrightarrow> gtSafe l \<Longrightarrow> gtSafe (c # l)"
  by (cases l) (simp_all add: gtSafe_def)

lemma emptyDoc_safe [simp]: "gtSafe emptyDoc1" "gtSafe emptyDoc2" "gtSafe emptyDoc3"
  unfolding emptyDoc1_def emptyDoc2_def emptyDoc3_def
  by (rule gtSafe_join, simp add: gtSafe_asc gtSafeC_def gtSafe_Cons)+

lemma card_safe [simp]:
  "gtSafe card1" "gtSafe card3" "gtSafe card4" "gtSafe card5" "gtSafe card6" "gtSafe card7"
  "gtSafe card8"
  unfolding card1_def card3_def card4_def card5_def card6_def card7_def card8_def
  by (rule gtSafe_join, simp add: gtSafe_asc gtSafeC_def gtSafe_Cons)+

lemma nested_safe [simp]:
  "gtSafe branchOpen" "gtSafe branchClose" "gtSafe diffOpen" "gtSafe diffClose"
  unfolding branchOpen_def branchClose_def diffOpen_def diffClose_def
  by (rule gtSafe_join, simp add: gtSafe_asc gtSafeC_def gtSafe_Cons)+

lemma page1_safe [simp]: "gtSafe page1"
  unfolding page1_def by (rule gtSafe_join) (simp add: gtSafe_asc gtSafeC_def gtSafe_Cons)

lemma page2_safe [simp]: "gtSafe page2"
  unfolding page2_def by (rule gtSafe_join) (simp add: gtSafe_asc gtSafeC_def gtSafe_Cons)

lemma page3_safe [simp]: "gtSafe page3"
  unfolding page3_def by (rule gtSafe_join) (simp add: gtSafe_asc gtSafeC_def gtSafe_Cons)

lemma page45_safe [simp]: "gtSafe page4" "gtSafe page5"
  unfolding page4_def page5_def
  by (rule gtSafe_join, simp add: gtSafe_asc gtSafeC_def gtSafe_Cons)+

lemma literal_safe [simp]: "gtSafe (asc '' commit'')" "gtSafe (asc ''s'')"
  by (simp_all add: gtSafe_asc gtSafeC_def)

lemma scan_card2: "q < 8 \<Longrightarrow> scan q card2 = 0"
proof -
  assume q: "q < 8"
  have "card2 = 0x3C # tl card2" by (simp add: card2_def asc_def)
  then have "scan q card2 = scan 1 (tl card2)"
    using q by (metis scan_Cons scanStep_lt)
  also have "\<dots> = 0"
    by (simp add: card2_def asc_def nl_def scan_Cons scan_Nil scanStep_def scriptOpen_codes)
  finally show ?thesis .
qed

lemma gtSafe_branchSpan [simp]: "gtSafe (branchSpan c)"
  by (simp add: branchSpan_def)

lemma gtSafe_diffSection [simp]: "gtSafe (diffSection c)"
  by (simp add: diffSection_def)

lemma scan_commitCard: "q < 8 \<Longrightarrow> scan q (commitCard n c i) < 8"
proof -
  assume q: "q < 8"
  have 1: "scan q (card1 @ showNat (n - i)) < 8"
    using q by (rule scan_gtSafe) simp_all
  have 2: "scan (scan q (card1 @ showNat (n - i))) card2 = 0"
    using 1 by (rule scan_card2)
  have "length (take 7 (hash c)) < 8" by simp
  then have 3: "scan 0 (take 7 (hash c)) < 8"
    using scan_bound[of 0 "take 7 (hash c)"] by linarith
  have 4: "scan (scan 0 (take 7 (hash c)))
             (card3 @ branchSpan c @ card4 @ escapeHTML (date c) @ card5 @ escapeHTML (message c)
              @ card6 @ escapeHTML (author c) @ card7 @ diffSection c @ card8) < 8"
    using 3 by (rule scan_gtSafe) simp_all
  have "commitCard n c i =
          (card1 @ showNat (n - i)) @ card2 @ take 7 (hash c)
          @ (card3 @ branchSpan c @ card4 @ escapeHTML (date c) @ card5 @ escapeHTML (message c)
              @ card6 @ escapeHTML (author c) @ card7 @ diffSection c @ card8)"
    by (simp add: commitCard_def)
  then show ?thesis
    using 2 4 by (simp only: scan_append)
qed

lemma scan_cards:
  "q < 8 \<Longrightarrow> scan q (concat (map (\<lambda>(index, c). commitCard n c index) xs)) < 8"
proof (induction xs arbitrary: q)
  case Nil
  then show ?case by (simp add: scan_Nil)
next
  case (Cons x xs)
  obtain i c where x: "x = (i, c)" by (cases x)
  from Cons.prems have "scan q (commitCard n c i) < 8" by (rule scan_commitCard)
  from Cons.IH[OF this] show ?case by (simp add: x scan_append)
qed

lemma scan_formatCommitsHTML: "scan 0 (formatCommitsHTML cs title) < 8"
proof (cases "cs = []")
  case True
  have "gtSafe (emptyDoc1 @ escapeHTML title @ emptyDoc2 @ escapeHTML title @ emptyDoc3)"
    by simp
  then show ?thesis using True by (simp add: formatCommitsHTML_def scan_gtSafe)
next
  case False
  let ?top = "page1 @ escapeHTML title @ page2 @ escapeHTML title @ page3
           @ showNat (length cs) @ asc '' commit''
           @ (if length cs \<noteq> 1 then asc ''s'' else []) @ page4"
  let ?cards = "concat (map (\<lambda>(index, c). commitCard (length cs) c index) (enumerate 0 cs))"
  have 1: "scan 0 ?top < 8" by (rule scan_gtSafe) simp_all
  from scan_cards[OF 1] have 2: "scan (scan 0 ?top) ?cards < 8" .
  have 3: "scan (scan (scan 0 ?top) ?cards) page5 < 8"
    using 2 by (rule scan_gtSafe) simp_all
  have "formatCommitsHTML cs title = ?top @ ?cards @ page5"
    using False by (simp add: formatCommitsHTML_def Let_def join_empty_concat)
  then show ?thesis using 3 by (simp only: scan_append)
qed

lemma no_script_tag: "\<not> contains (formatCommitsHTML cs title) (asc ''<script>alert(1)</script>'')"
proof
  assume a: "contains (formatCommitsHTML cs title) (asc ''<script>alert(1)</script>'')"
  have "asc ''<script>alert(1)</script>'' = scriptOpen @ asc ''alert(1)</script>''"
    by (simp add: scriptOpen_def asc_def)
  with a have "contains (formatCommitsHTML cs title) scriptOpen"
    using contains_prefix by metis
  then have "8 \<le> scan 0 (formatCommitsHTML cs title)" by (rule contains_scriptOpen_scan)
  with scan_formatCommitsHTML[of cs title] show False by simp
qed

lemma contains_prefix_self: "prefix p s \<Longrightarrow> contains s p"
  by (cases s) simp_all

lemma contains_infix: "contains (a @ p @ b) p"
  by (induction a) (simp_all add: contains_prefix_self)

lemma summary_embedded:
  assumes "i < length cs"
  shows "\<exists>pre post. formatCommitsHTML cs title = pre @ escapeHTML (message (cs ! i)) @ post"
proof -
  define a where "a =
      (page1 @ escapeHTML title @ page2 @ escapeHTML title @ page3
            @ showNat (length cs) @ asc '' commit''
            @ (if length cs \<noteq> 1 then asc ''s'' else []) @ page4)
           @ concat (map (\<lambda>j. commitCard (length cs) (cs ! j) j) [0..<i])
           @ card1 @ showNat (length cs - i) @ card2 @ take 7 (hash (cs ! i)) @ card3
              @ (if branch (cs ! i) = [] then []
                 else branchOpen
                      @ escapeHTML (trim (takeWhile (\<lambda>x. x \<noteq> 0x2C) (branch (cs ! i))))
                      @ branchClose)
              @ card4 @ escapeHTML (date (cs ! i)) @ card5"
  define d where "d =
       card6 @ escapeHTML (author (cs ! i)) @ card7
              @ (if diff (cs ! i) = [] then []
                 else diffOpen @ escapeHTML (diff (cs ! i)) @ diffClose)
              @ card8
           @ concat (map (\<lambda>j. commitCard (length cs) (cs ! j) j) [Suc i..<length cs])
           @ page5"
  have "formatCommitsHTML cs title = a @ escapeHTML (message (cs ! i)) @ d"
    unfolding a_def d_def formatCommitsHTML_block[OF assms, of title] by simp
  then show ?thesis by (intro exI)
qed

section \<open>The claims about the record parser\<close>

text \<open>
  Claim C1, as stated, fails: the number of records is not the number of lines that begin
  with \<open>commit \<close>. A marker line that does not follow an empty line starts no record (it
  overwrites the hash of the record it stands in), and a text without any marker line
  still yields a record when it is not blank.
\<close>

theorem marker_lines_not_record_count:
  "markerLines (asc ''commit a\<newline>commit b'') = 2 \<and>
   length (parseGitLog (asc ''commit a\<newline>commit b'')) = 1 \<and>
   markerLines (asc ''x'') = 0 \<and>
   length (parseGitLog (asc ''x'')) = 1"
  by code_simp

text \<open>
  Claim C1, amended: for a text that begins with the marker, in which every later line
  beginning with the marker follows an empty line, and none of whose fragments between
  the boundaries (two newlines and the marker) is blank, the number of records is the
  number of lines beginning with the marker, whatever else the text contains.
\<close>

theorem record_count_is_marker_count:
  assumes "startsWith s (asc ''commit '')"
    and "markersFollowEmptyLine (split s nl)"
    and "\<forall>b\<in>set (split s (asc ''\<newline>\<newline>commit '')). trim b \<noteq> []"
  shows "length (parseGitLog s) = markerLines s"
proof -
  from assms(3) have "filter (\<lambda>b. trim b \<noteq> []) (split s (asc ''\<newline>\<newline>commit ''))
                        = split s (asc ''\<newline>\<newline>commit '')"
    by (simp add: filter_id_conv)
  then have "length (parseGitLog s) = length (split s (asc ''\<newline>\<newline>commit ''))"
    by (simp add: parseGitLog_def commitBlocks_def)
  then show ?thesis
    by (simp add: length_split_boundary marker_lines_boundaries[OF assms(1,2)])
qed

theorem record_count_is_marker_count_example:
  "markerLines (asc ''commit a\<newline>Author: x\<newline>\<newline>fix\<newline>\<newline>diff --git\<newline>+commit z\<newline>\<newline>commit b'') = 2 \<and>
   length (parseGitLog (asc ''commit a\<newline>Author: x\<newline>\<newline>fix\<newline>\<newline>diff --git\<newline>+commit z\<newline>\<newline>commit b'')) = 2"
proof -
  let ?s = "asc ''commit a\<newline>Author: x\<newline>\<newline>fix\<newline>\<newline>diff --git\<newline>+commit z\<newline>\<newline>commit b''"
  have h1: "startsWith ?s (asc ''commit '')" by code_simp
  have h2: "markersFollowEmptyLine (split ?s nl)" by code_simp
  have h3: "\<forall>b\<in>set (split ?s (asc ''\<newline>\<newline>commit '')). trim b \<noteq> []" by code_simp
  have m: "markerLines ?s = 2" by code_simp
  from record_count_is_marker_count[OF h1 h2 h3] m show ?thesis by simp
qed

text \<open>
  Claim C2, as stated, fails: in diff mode the header prefixes are still tested first, so
  a line beginning with \<open>Author: \<close> after a diff marker is assigned to the author field,
  and a further diff-marker line is consumed; neither reaches the diff text.
\<close>

theorem header_line_in_diff_mode_assigned:
  "parseGitLog (asc ''commit a\<newline>--- x\<newline>Author: z\<newline>+++ w'') =
     [\<lparr>hash = asc ''a'', author = asc ''z'', date = [], message = [], branch = [], diff = []\<rparr>]"
  by code_simp

text \<open>
  Claim C2, amended: the diff text of a record is exactly the lines after the first
  diff-marker line of its fragment that begin with none of the four header prefixes and
  none of the three diff-marker prefixes, in their order, verbatim (blank lines included)
  and joined by newlines.
\<close>

theorem diff_text_after_marker:
  assumes "blockLines b = pre @ m # post"
    and "diffMarker m"
    and "\<forall>l\<in>set pre. \<not> diffMarker l"
  shows "diff (parseBlock b) =
           join nl (filter (\<lambda>l. \<not> headerLine l \<and> \<not> diffMarker l) post)"
proof -
  let ?s1 = "foldl parseLine initState pre"
  have init: "\<not> inDiff initState" "diffLines initState = []"
    by (simp_all add: initState_def)
  from foldl_before_diff[OF init(1) assms(3)] init(2)
  have s1: "diffLines ?s1 = []" "\<not> inDiff ?s1" by simp_all
  let ?s2 = "parseLine ?s1 m"
  from assms(2) s1 have s2: "inDiff ?s2" "diffLines ?s2 = []"
    by (simp_all add: parseLine_marker)
  from foldl_in_diff[OF s2(1), of post] s2(2)
  have "diffLines (foldl parseLine ?s2 post) =
          filter (\<lambda>l. \<not> headerLine l \<and> \<not> diffMarker l) post" by simp
  then show ?thesis
    by (simp add: parseBlock_lines assms(1))
qed

theorem diff_text_after_marker_example:
  "diff (parseBlock (asc ''commit a\<newline>--- x\<newline>+y\<newline>\<newline>Author: z\<newline>+++ w\<newline>-q''))
     = asc ''+y\<newline>\<newline>-q''"
proof -
  let ?b = "asc ''commit a\<newline>--- x\<newline>+y\<newline>\<newline>Author: z\<newline>+++ w\<newline>-q''"
  let ?post = "[asc ''+y'', [], asc ''Author: z'', asc ''+++ w'', asc ''-q'']"
  have h1: "blockLines ?b = [asc ''commit a''] @ asc ''--- x'' # ?post"
    by code_simp
  have h2: "diffMarker (asc ''--- x'')"
    by code_simp
  have h3: "\<forall>l\<in>set [asc ''commit a'']. \<not> diffMarker l"
    by code_simp
  have "diff (parseBlock ?b) =
          join nl (filter (\<lambda>l. \<not> headerLine l \<and> \<not> diffMarker l) ?post)"
    by (rule diff_text_after_marker[OF h1 h2 h3])
  also have "\<dots> = asc ''+y\<newline>\<newline>-q''"
    by code_simp
  finally show ?thesis .
qed

text \<open>
  Claim C3, as stated, fails: a blank line before diff mode is dropped, the summary is
  what it was; so is a line indented by spaces that has no bullet.
\<close>

theorem blank_and_indented_lines_dropped:
  "map message (parseGitLog (asc ''commit a\<newline>first\<newline>\<newline>last'')) = [asc ''first last''] \<and>
   map message (parseGitLog (asc ''commit a\<newline>first\<newline>  second'')) = [asc ''first'']"
  by code_simp

text \<open>
  Claim C3, amended: before diff mode a blank line leaves the parser state unchanged; a
  line that is not blank and starts with a whitespace character other than the space (a
  tab, say) is appended, trimmed, to the summary after a space (it becomes the summary
  while the summary is empty); and a line whose trimmed content begins with the bullet
  glyph is appended, trimmed, after a space, except that a line not starting with a space
  character becomes the summary itself while the summary is empty.
\<close>

theorem continuation_lines:
  assumes "\<not> inDiff st"
  shows "(trim l = [] \<longrightarrow> parseLine st l = st) \<and>
         (trim l \<noteq> [] \<and> isWhiteSpace (hd l) \<and> hd l \<noteq> 0x20 \<longrightarrow>
            parseLine st l = st\<lparr>commit := (commit st)\<lparr>message :=
              (if message (commit st) = [] then trim l
               else message (commit st) @ asc '' '' @ trim l)\<rparr>\<rparr>) \<and>
         (startsWith (trim l) bullet \<longrightarrow>
            parseLine st l = st\<lparr>commit := (commit st)\<lparr>message :=
              (if message (commit st) = [] \<and> \<not> startsWith l (asc '' '') then trim l
               else message (commit st) @ asc '' '' @ trim l)\<rparr>\<rparr>)"
proof (intro conjI impI)
  assume b: "trim l = []"
  with blank_not_prefixed[OF b] assms show "parseLine st l = st"
    by (simp add: parseLine_summary startsWith_def bullet_def)
next
  assume a: "trim l \<noteq> [] \<and> isWhiteSpace (hd l) \<and> hd l \<noteq> 0x20"
  then have "l \<noteq> []" by (auto simp: trim_def)
  then obtain c t where l: "l = c # t" by (cases l) auto
  with a have c: "isWhiteSpace c" "c \<noteq> 0x20" by simp_all
  from c(2) have "\<not> startsWith l (asc '' '')"
    by (simp add: l startsWith_def asc_def)
  with indented_not_prefixed[OF l c(1)] assms a
  show "parseLine st l = st\<lparr>commit := (commit st)\<lparr>message :=
              (if message (commit st) = [] then trim l
               else message (commit st) @ asc '' '' @ trim l)\<rparr>\<rparr>"
    by (simp add: parseLine_summary)
next
  assume b: "startsWith (trim l) bullet"
  then have "trim l \<noteq> []" by (auto simp: startsWith_def bullet_def)
  with bullet_not_prefixed[OF b] assms b show "parseLine st l = st\<lparr>commit := (commit st)\<lparr>message :=
              (if message (commit st) = [] \<and> \<not> startsWith l (asc '' '') then trim l
               else message (commit st) @ asc '' '' @ trim l)\<rparr>\<rparr>"
    by (simp add: parseLine_summary)
qed

theorem continuation_lines_example:
  "parseLine initState [] = initState \<and>
   parseLine initState (0x09 # asc ''more text'') =
     initState\<lparr>commit := emptyCommit\<lparr>message := asc ''more text''\<rparr>\<rparr> \<and>
   parseLine initState (asc ''  '' @ bullet @ asc '' item'') =
     initState\<lparr>commit := emptyCommit\<lparr>message := asc '' '' @ bullet @ asc '' item''\<rparr>\<rparr>"
proof -
  have n: "\<not> inDiff initState" by (simp add: initState_def)
  have t0: "trim [] = []" by (simp add: trim_def)
  have t1: "trim (asc ''  '' @ bullet @ asc '' item'') = bullet @ asc '' item''"
    by code_simp
  have t2: "trim (0x09 # asc ''more text'') = asc ''more text''" by code_simp
  have w: "isWhiteSpace 0x09" by (simp add: isWhiteSpace_def)
  have ne: "asc ''more text'' \<noteq> []" by (simp add: asc_def)
  have s: "startsWith (bullet @ asc '' item'') bullet" by (simp add: startsWith_def)
  have sp: "startsWith (asc ''  '' @ bullet @ asc '' item'') (asc '' '')" by code_simp
  have c: "commit initState = emptyCommit" "message emptyCommit = []"
    by (simp_all add: initState_def emptyCommit_def)
  from continuation_lines[OF n, of "[]"]
    continuation_lines[OF n, of "0x09 # asc ''more text''"]
    continuation_lines[OF n, of "asc ''  '' @ bullet @ asc '' item''"]
  show ?thesis
    by (simp add: t0 t1 t2 w ne s sp c)
qed

text \<open>
  Claim C10: \<open>parseGitLog\<close> returns a sequence of records for every text: every string
  operation it uses is defined on every string and throws nothing, and the one recursion
  that is not structural, the scan of \<open>split\<close>, terminates. The empty text gives no
  record; there is one record per block, the parse of that block, and each of its fields
  that no line of the block assigns is the empty string. The hash is always assigned
  (the block has a line beginning with the marker); the author, the date and the branch
  label are assigned only by a line with their prefix; the summary only by a line before
  the first diff marker that passes one of the two summary tests (so it is empty also
  when the block has diff content or a dropped indented line); the diff text is empty
  when no line after the first diff marker is free of both groups of prefixes.
\<close>

theorem parseGitLog_defaults:
  "parseGitLog [] = [] \<and>
   (\<exists>rs. parseGitLog s = rs \<and> length rs = length (commitBlocks s) \<and>
      (\<forall>i<length rs.
         rs ! i = parseBlock (commitBlocks s ! i) \<and>
         (\<exists>l\<in>set (blockLines (commitBlocks s ! i)). startsWith l (asc ''commit '')) \<and>
         ((\<forall>l\<in>set (blockLines (commitBlocks s ! i)). \<not> startsWith l (asc ''Author: ''))
            \<longrightarrow> author (rs ! i) = []) \<and>
         ((\<forall>l\<in>set (blockLines (commitBlocks s ! i)). \<not> startsWith l (asc ''Date: ''))
            \<longrightarrow> date (rs ! i) = []) \<and>
         ((\<forall>l\<in>set (blockLines (commitBlocks s ! i)). \<not> startsWith l (asc ''Branches: ''))
            \<longrightarrow> branch (rs ! i) = []) \<and>
         ((\<forall>l\<in>set (takeWhile (\<lambda>l. \<not> diffMarker l) (blockLines (commitBlocks s ! i))).
              \<not> summaryLine l)
            \<longrightarrow> message (rs ! i) = []) \<and>
         ((\<forall>l\<in>set (dropWhile (\<lambda>l. \<not> diffMarker l) (blockLines (commitBlocks s ! i))).
              headerLine l \<or> diffMarker l)
            \<longrightarrow> diff (rs ! i) = [])))"
proof (intro conjI)
  show "parseGitLog [] = []"
    by (simp add: parseGitLog_def commitBlocks_def split_def asc_def trim_def)
next
  have i: "commit initState = emptyCommit" "\<not> inDiff initState" "diffLines initState = []"
    by (simp_all add: initState_def)
  have e: "author emptyCommit = []" "date emptyCommit = []" "branch emptyCommit = []"
    "message emptyCommit = []"
    by (simp_all add: emptyCommit_def)
  have fields: "
         (\<exists>l\<in>set (blockLines b). startsWith l (asc ''commit '')) \<and>
         ((\<forall>l\<in>set (blockLines b). \<not> startsWith l (asc ''Author: ''))
            \<longrightarrow> author (parseBlock b) = []) \<and>
         ((\<forall>l\<in>set (blockLines b). \<not> startsWith l (asc ''Date: ''))
            \<longrightarrow> date (parseBlock b) = []) \<and>
         ((\<forall>l\<in>set (blockLines b). \<not> startsWith l (asc ''Branches: ''))
            \<longrightarrow> branch (parseBlock b) = []) \<and>
         ((\<forall>l\<in>set (takeWhile (\<lambda>l. \<not> diffMarker l) (blockLines b)). \<not> summaryLine l)
            \<longrightarrow> message (parseBlock b) = []) \<and>
         ((\<forall>l\<in>set (dropWhile (\<lambda>l. \<not> diffMarker l) (blockLines b)). headerLine l \<or> diffMarker l)
            \<longrightarrow> diff (parseBlock b) = [])" for b
  proof (intro conjI impI)
    show "\<exists>l\<in>set (blockLines b). startsWith l (asc ''commit '')"
      using hd_blockLines[of b] blockLines_not_Nil[of b] hd_in_set by blast
  next
    assume "\<forall>l\<in>set (blockLines b). \<not> startsWith l (asc ''Author: '')"
    then show "author (parseBlock b) = []"
      using foldl_author_keep[of "blockLines b" initState] by (simp add: parseBlock_lines i e)
  next
    assume "\<forall>l\<in>set (blockLines b). \<not> startsWith l (asc ''Date: '')"
    then show "date (parseBlock b) = []"
      using foldl_date_keep[of "blockLines b" initState] by (simp add: parseBlock_lines i e)
  next
    assume "\<forall>l\<in>set (blockLines b). \<not> startsWith l (asc ''Branches: '')"
    then show "branch (parseBlock b) = []"
      using foldl_branch_keep[of "blockLines b" initState] by (simp add: parseBlock_lines i e)
  next
    assume "\<forall>l\<in>set (takeWhile (\<lambda>l. \<not> diffMarker l) (blockLines b)). \<not> summaryLine l"
    then show "message (parseBlock b) = []"
      using message_never_assigned[of "blockLines b"] by (simp add: parseBlock_lines)
  next
    assume "\<forall>l\<in>set (dropWhile (\<lambda>l. \<not> diffMarker l) (blockLines b)). headerLine l \<or> diffMarker l"
    then show "diff (parseBlock b) = []"
      using diff_never_assigned[of "blockLines b"] by (simp add: parseBlock_lines)
  qed
  show "\<exists>rs. parseGitLog s = rs \<and> length rs = length (commitBlocks s) \<and>
      (\<forall>i<length rs.
         rs ! i = parseBlock (commitBlocks s ! i) \<and>
         (\<exists>l\<in>set (blockLines (commitBlocks s ! i)). startsWith l (asc ''commit '')) \<and>
         ((\<forall>l\<in>set (blockLines (commitBlocks s ! i)). \<not> startsWith l (asc ''Author: ''))
            \<longrightarrow> author (rs ! i) = []) \<and>
         ((\<forall>l\<in>set (blockLines (commitBlocks s ! i)). \<not> startsWith l (asc ''Date: ''))
            \<longrightarrow> date (rs ! i) = []) \<and>
         ((\<forall>l\<in>set (blockLines (commitBlocks s ! i)). \<not> startsWith l (asc ''Branches: ''))
            \<longrightarrow> branch (rs ! i) = []) \<and>
         ((\<forall>l\<in>set (takeWhile (\<lambda>l. \<not> diffMarker l) (blockLines (commitBlocks s ! i))).
              \<not> summaryLine l)
            \<longrightarrow> message (rs ! i) = []) \<and>
         ((\<forall>l\<in>set (dropWhile (\<lambda>l. \<not> diffMarker l) (blockLines (commitBlocks s ! i))).
              headerLine l \<or> diffMarker l)
            \<longrightarrow> diff (rs ! i) = []))"
  proof (intro exI[of _ "map parseBlock (commitBlocks s)"] conjI allI impI)
    show "parseGitLog s = map parseBlock (commitBlocks s)" by (simp add: parseGitLog_def)
  qed (use fields in simp_all)
qed

theorem parseGitLog_defaults_example:
  "parseGitLog (asc ''commit a\<newline>  second\<newline>--- x\<newline>+y'') =
     [\<lparr>hash = asc ''a'', author = [], date = [], message = [], branch = [], diff = asc ''+y''\<rparr>]"
proof -
  let ?s = "asc ''commit a\<newline>  second\<newline>--- x\<newline>+y''"
  let ?ls = "[asc ''commit a'', asc ''  second'', asc ''--- x'', asc ''+y'']"
  have cb: "commitBlocks ?s = [?s]" by code_simp
  have bl: "blockLines ?s = ?ls" by code_simp
  have pl: "parseGitLog ?s = [parseBlock ?s]" by (simp add: parseGitLog_def cb)
  have h: "hash (parseBlock ?s) = asc ''a''" "diff (parseBlock ?s) = asc ''+y''" by code_simp+
  have c1: "\<forall>l\<in>set ?ls. \<not> startsWith l (asc ''Author: '')" by code_simp
  have c2: "\<forall>l\<in>set ?ls. \<not> startsWith l (asc ''Date: '')" by code_simp
  have c3: "\<forall>l\<in>set ?ls. \<not> startsWith l (asc ''Branches: '')" by code_simp
  have c4: "\<forall>l\<in>set (takeWhile (\<lambda>l. \<not> diffMarker l) ?ls). \<not> summaryLine l" by code_simp
  from parseGitLog_defaults[of ?s]
  have "author (parseBlock ?s) = [] \<and> date (parseBlock ?s) = [] \<and> branch (parseBlock ?s) = []
        \<and> message (parseBlock ?s) = []"
    unfolding pl cb using c1 c2 c3 c4 by (simp add: bl)
  with h show ?thesis
    by (simp add: pl)
qed

section \<open>The claims about the history queries and the heuristic\<close>

text \<open>
  Claim C6: when the repository root is found and the call of the tool for the range
  \<open>a,b\<close> fails, \<open>getLineHistory\<close> with \<open>a \<noteq> b\<close> makes exactly one more call, whose
  command line is that of the first call with \<open>-L a,a\<close> in place of \<open>-L a,b\<close>, and its
  outcome (the parsed output, or its failure) is the result; with \<open>a = b\<close> no further
  call is made and the first failure is the result. The command lines are spelled out:
  \<open>c1\<close> is the call for the range, \<open>c2\<close> the retry.
\<close>

theorem line_history_fallback:
  fixes e :: env and f out :: jsstring and a b :: nat
  defines \<open>c0 \<equiv> (dirname e f, asc ''git rev-parse --show-toplevel'')\<close>
  defines \<open>c1 \<equiv> (trim out,
     asc ''git log --pretty=format:"commit %H%nAuthor: %an <%ae>%nDate: %ad%nBranches: %D%n%n%s%n" --date=relative -L ''
     @ showNat a @ asc '','' @ showNat b @ asc '':"'' @ relative e (trim out) f @ asc ''"'')\<close>
  defines \<open>c2 \<equiv> (trim out,
     asc ''git log --pretty=format:"commit %H%nAuthor: %an <%ae>%nDate: %ad%nBranches: %D%n%n%s%n" --date=relative -L ''
     @ showNat a @ asc '','' @ showNat a @ asc '':"'' @ relative e (trim out) f @ asc ''"'')\<close>
  assumes root: "tool e log c0 = Inr out" "trim out \<noteq> []"
    and fail: "tool e (log @ [c0]) c1 = Inl m"
  shows "getLineHistory e f a b log =
           (if a \<noteq> b then
              (case tool e (log @ [c0, c1]) c2 of
                 Inr output \<Rightarrow> Inr (parseGitLog output)
               | Inl m2 \<Rightarrow> Inl (Error (asc ''Git command failed: '' @ m2)),
               log @ [c0, c1, c2])
            else (Inl (Error (asc ''Git command failed: '' @ m)), log @ [c0, c1]))"
  using getLineHistory_fallback[of e log f out a b m] root fail
  unfolding c0_def c1_def c2_def lineArgs_text by simp

theorem line_history_fallback_example:
  \<open>getLineHistory exampleEnv (asc ''/repo/src/a.js'') 3 5 [] =
     (Inl (Error (asc ''Git command failed: fatal'')),
      [(asc ''/repo/src'', asc ''git rev-parse --show-toplevel''),
       (asc ''/repo'',
        asc ''git log --pretty=format:"commit %H%nAuthor: %an <%ae>%nDate: %ad%nBranches: %D%n%n%s%n" --date=relative -L 3,5:"src/a.js"''),
       (asc ''/repo'',
        asc ''git log --pretty=format:"commit %H%nAuthor: %an <%ae>%nDate: %ad%nBranches: %D%n%n%s%n" --date=relative -L 3,3:"src/a.js"'')])\<close>
proof -
  have t: "trim (asc ''/repo\<newline>'') = asc ''/repo''" by code_simp
  have ne: "asc ''/repo'' \<noteq> []" by (simp add: asc_def)
  have n: "showNat 3 = asc ''3''" "showNat 5 = asc ''5''" by code_simp+
  have c1: \<open>asc ''git log --pretty=format:"commit %H%nAuthor: %an <%ae>%nDate: %ad%nBranches: %D%n%n%s%n" --date=relative -L ''
     @ asc ''3'' @ asc '','' @ asc ''5'' @ asc '':"'' @ asc ''src/a.js'' @ asc ''"''
     = asc ''git log --pretty=format:"commit %H%nAuthor: %an <%ae>%nDate: %ad%nBranches: %D%n%n%s%n" --date=relative -L 3,5:"src/a.js"''\<close>
    by (simp add: asc_def)
  have c2: \<open>asc ''git log --pretty=format:"commit %H%nAuthor: %an <%ae>%nDate: %ad%nBranches: %D%n%n%s%n" --date=relative -L ''
     @ asc ''3'' @ asc '','' @ asc ''3'' @ asc '':"'' @ asc ''src/a.js'' @ asc ''"''
     = asc ''git log --pretty=format:"commit %H%nAuthor: %an <%ae>%nDate: %ad%nBranches: %D%n%n%s%n" --date=relative -L 3,3:"src/a.js"''\<close>
    by (simp add: asc_def)
  have d: \<open>asc ''git log --pretty=format:"commit %H%nAuthor: %an <%ae>%nDate: %ad%nBranches: %D%n%n%s%n" --date=relative -L 3,5:"src/a.js"''
      \<noteq> asc ''git rev-parse --show-toplevel''\<close>
    \<open>asc ''git log --pretty=format:"commit %H%nAuthor: %an <%ae>%nDate: %ad%nBranches: %D%n%n%s%n" --date=relative -L 3,3:"src/a.js"''
      \<noteq> asc ''git rev-parse --show-toplevel''\<close>
    by (simp_all add: asc_def)
  have m: "asc ''Git command failed: '' @ asc ''fatal'' = asc ''Git command failed: fatal''"
    by (simp add: asc_def)
  show ?thesis
    using line_history_fallback[of exampleEnv "[]" "asc ''/repo/src/a.js''" "asc ''/repo\<newline>''" 3 5 "asc ''fatal''"]
    by (simp add: exampleEnv_def t ne n c1 c2 d m)
qed



text \<open>
  Claim C9: on the line \<open>function calculateTotal(items) {\<close> the heuristic returns
  \<open>calculateTotal\<close>, and on the line \<open>const x = 5;\<close> no pattern matches and it returns
  none.
\<close>

theorem symbol_name_examples:
  "getFunctionNameAtCursor (\<lambda>n. asc ''function calculateTotal(items) {'') line
     = Some (asc ''calculateTotal'') \<and>
   getFunctionNameAtCursor (\<lambda>n. asc ''const x = 5;'') line = None"
proof -
  have "firstMatch patterns (asc ''function calculateTotal(items) {'') = Some (asc ''calculateTotal'')"
    by code_simp
  moreover have "firstMatch patterns (asc ''const x = 5;'') = None"
    by code_simp
  ultimately show ?thesis by (simp add: getFunctionNameAtCursor_def)
qed


section \<open>The claims about the renderer\<close>

text \<open>
  Claim C4 is what the renderer should do and does for every field but one: the revision
  identifier is interpolated as \<open>commit.hash.substring(0, 7)\<close>, without \<open>escapeHTML\<close>.
  A commit whose subject line is \<open>commit <b>\<close> makes the parser start a record with the
  hash \<open><b>\<close>, and the document then holds the tag unescaped.
\<close>

theorem hash_not_escaped:
  \<open>\<exists>pre post.
     formatCommitsHTML
       (parseGitLog (asc ''commit 1111111\<newline>Author: A <a@b.c>\<newline>Date: 2 days ago\<newline>Branches: \<newline>\<newline>commit <b>\<newline>''))
       title
     = pre @ asc ''<code class="commit-hash"><b></code>'' @ post\<close>
proof -
  let ?raw = "asc ''commit 1111111\<newline>Author: A <a@b.c>\<newline>Date: 2 days ago\<newline>Branches: \<newline>\<newline>commit <b>\<newline>''"
  let ?c0 = "\<lparr>hash = asc ''1111111'', author = asc ''A <a@b.c>'', date = asc ''2 days ago'',
               message = [], branch = [], diff = []\<rparr>"
  let ?c1 = "\<lparr>hash = asc ''<b>'', author = [], date = [], message = [], branch = [], diff = []\<rparr>"
  have p: "parseGitLog ?raw = [?c0, ?c1]" by code_simp
  have a: "asc ''<code class=\"commit-hash\">'' @ take 7 (asc ''<b>'') @ asc ''</code>'' @ r
             = asc ''<code class=\"commit-hash\"><b></code>'' @ r" for r
    by (simp add: asc_def)
  from hash_verbatim[of 1 "[?c0, ?c1]" title] show ?thesis
    unfolding p by (simp add: a)
qed

text \<open>
  Claim C5: for a record whose summary is \<open><script>alert(1)</script>\<close>, the document
  holds the summary in its escaped form and nowhere the text \<open><script>alert(1)</script>\<close>
  itself, whatever the other fields, the other records and the title are.
\<close>

theorem script_summary_escaped:
  assumes "c \<in> set cs" and "message c = asc ''<script>alert(1)</script>''"
  shows "contains (formatCommitsHTML cs title) (asc ''&lt;script&gt;alert(1)&lt;/script&gt;'') \<and>
         \<not> contains (formatCommitsHTML cs title) (asc ''<script>alert(1)</script>'')"
proof
  from assms(1) obtain i where i: "i < length cs" "cs ! i = c"
    by (auto simp: in_set_conv_nth)
  have e: "escapeHTML (asc ''<script>alert(1)</script>'') = asc ''&lt;script&gt;alert(1)&lt;/script&gt;''"
    by (simp add: escapeHTML_def escapeChar_def asc_def)
  from summary_embedded[OF i(1), of title] i(2) assms(2) e
  obtain pre post where
    "formatCommitsHTML cs title = pre @ asc ''&lt;script&gt;alert(1)&lt;/script&gt;'' @ post"
    by auto
  then show "contains (formatCommitsHTML cs title) (asc ''&lt;script&gt;alert(1)&lt;/script&gt;'')"
    by (simp add: contains_infix)
next
  show "\<not> contains (formatCommitsHTML cs title) (asc ''<script>alert(1)</script>'')"
    by (rule no_script_tag)
qed

theorem script_summary_escaped_example:
  "contains
     (formatCommitsHTML
        [\<lparr>hash = asc ''abc1234'', author = [], date = [],
          message = asc ''<script>alert(1)</script>'', branch = [], diff = []\<rparr>] (asc ''History''))
     (asc ''&lt;script&gt;alert(1)&lt;/script&gt;'') \<and>
   \<not> contains
     (formatCommitsHTML
        [\<lparr>hash = asc ''abc1234'', author = [], date = [],
          message = asc ''<script>alert(1)</script>'', branch = [], diff = []\<rparr>] (asc ''History''))
     (asc ''<script>alert(1)</script>'')"
  using script_summary_escaped[of
      "\<lparr>hash = asc ''abc1234'', author = [], date = [],
          message = asc ''<script>alert(1)</script>'', branch = [], diff = []\<rparr>"
      "[\<lparr>hash = asc ''abc1234'', author = [], date = [],
          message = asc ''<script>alert(1)</script>'', branch = [], diff = []\<rparr>]" "asc ''History''"]
  by simp

text \<open>
  Claim C8: the document of a non-empty sequence is the head of the page, the blocks of
  the records in their order and the foot of the page. The block of the record at index
  \<open>i\<close> shows the number \<open>length cs - i\<close> after \<open>#\<close>, the first seven code units of the
  revision identifier, the branch element with the text of the label before its first
  comma (trimmed) exactly when the label is not empty, and the diff section exactly when
  the diff text is not empty.
\<close>

theorem commit_block_contents:
  assumes "i < length cs"
  shows "formatCommitsHTML cs title =
           (page1 @ escapeHTML title @ page2 @ escapeHTML title @ page3
            @ showNat (length cs) @ asc '' commit''
            @ (if length cs \<noteq> 1 then asc ''s'' else []) @ page4)
           @ concat (map (\<lambda>j. commitCard (length cs) (cs ! j) j) [0..<i])
           @ (card1 @ showNat (length cs - i) @ card2 @ take 7 (hash (cs ! i)) @ card3
              @ (if branch (cs ! i) = [] then []
                 else branchOpen
                      @ escapeHTML (trim (takeWhile (\<lambda>x. x \<noteq> 0x2C) (branch (cs ! i))))
                      @ branchClose)
              @ card4 @ escapeHTML (date (cs ! i)) @ card5 @ escapeHTML (message (cs ! i))
              @ card6 @ escapeHTML (author (cs ! i)) @ card7
              @ (if diff (cs ! i) = [] then []
                 else diffOpen @ escapeHTML (diff (cs ! i)) @ diffClose)
              @ card8)
           @ concat (map (\<lambda>j. commitCard (length cs) (cs ! j) j) [Suc i..<length cs])
           @ page5"
  using assms by (rule formatCommitsHTML_block)

theorem commit_block_contents_example:
  "formatCommitsHTML
     [\<lparr>hash = asc ''abc1234def5678'', author = asc ''Jane Doe <jane@example.com>'',
       date = asc ''2 days ago'', message = asc ''Fix bug'', branch = asc ''main, origin/main'',
       diff = []\<rparr>,
      \<lparr>hash = asc ''0123456789'', author = asc ''Bob'', date = asc ''3 weeks ago'',
       message = asc ''Init'', branch = [], diff = asc ''+x''\<rparr>] (asc ''History'')
   = (page1 @ escapeHTML (asc ''History'') @ page2 @ escapeHTML (asc ''History'') @ page3
      @ asc ''2'' @ asc '' commit'' @ asc ''s'' @ page4)
     @ (card1 @ asc ''2'' @ card2 @ asc ''abc1234'' @ card3
        @ (branchOpen @ asc ''main'' @ branchClose)
        @ card4 @ asc ''2 days ago'' @ card5 @ asc ''Fix bug''
        @ card6 @ asc ''Jane Doe &lt;jane@example.com&gt;'' @ card7 @ card8)
     @ commitCard 2 \<lparr>hash = asc ''0123456789'', author = asc ''Bob'', date = asc ''3 weeks ago'',
       message = asc ''Init'', branch = [], diff = asc ''+x''\<rparr> 1
     @ page5"
proof -
  have n: "showNat (Suc (Suc 0)) = asc ''2''" by code_simp
  have t: "trim (takeWhile (\<lambda>x. x \<noteq> 0x2C) (asc ''main, origin/main'')) = asc ''main''"
    by code_simp
  have e: "escapeHTML (asc ''main'') = asc ''main''"
    "escapeHTML (asc ''2 days ago'') = asc ''2 days ago''"
    "escapeHTML (asc ''Fix bug'') = asc ''Fix bug''"
    "escapeHTML (asc ''Jane Doe <jane@example.com>'') = asc ''Jane Doe &lt;jane@example.com&gt;''"
    by code_simp+
  have h: "take 7 (asc ''abc1234def5678'') = asc ''abc1234''" by (simp add: asc_def)
  have b: "asc ''main, origin/main'' \<noteq> []" by (simp add: asc_def)
  show ?thesis
    using commit_block_contents[of 0
      "[\<lparr>hash = asc ''abc1234def5678'', author = asc ''Jane Doe <jane@example.com>'',
       date = asc ''2 days ago'', message = asc ''Fix bug'', branch = asc ''main, origin/main'',
       diff = []\<rparr>,
      \<lparr>hash = asc ''0123456789'', author = asc ''Bob'', date = asc ''3 weeks ago'',
       message = asc ''Init'', branch = [], diff = asc ''+x''\<rparr>]" "asc ''History''"]
    by (simp add: n t e h b numeral_2_eq_2)
qed

end
